theory Spec2Isabelle
  imports Main "HOL-Library.Word"
begin

section \<open>The SD-card ELF loaders of the ZCU102 bootstrap programs\<close>

text \<open>
  The repository holds two programs: \<^verbatim>\<open>rpu_bootloader_sd.c\<close> (Cortex-R5, \<^verbatim>\<open>load_elf32\<close>) and
  \<^verbatim>\<open>apu_bootloader_sd.c\<close> (Cortex-A53, \<^verbatim>\<open>load_elf64\<close>, followed by the hand-off to the
  other cores). The bodies of \<^verbatim>\<open>load_elf32\<close> and \<^verbatim>\<open>load_elf64\<close> are the same text up to
  the ELF structure types, the cast of the flushed address and the last lines; the common
  part is \<open>load_elf\<close> below, over the word type of the ELF fields, and the two source
  functions are its instances.

  Machine integers are words: \<open>+\<close> and \<open>-\<close> wrap around as the C unsigned types do. The
  loop counters \<^verbatim>\<open>bytesToRead\<close> and \<^verbatim>\<open>bytesLoaded\<close> are natural numbers: \<^verbatim>\<open>f_read\<close> never
  returns more bytes than it was asked for, so \<^verbatim>\<open>bytesToRead -= bytesRead\<close> never goes
  below zero and \<^verbatim>\<open>bytesLoaded\<close> never exceeds \<^verbatim>\<open>p_filesz\<close>.
\<close>

type_synonym byte = "8 word"
type_synonym u16 = "16 word"
type_synonym u32 = "32 word"
type_synonym u64 = "64 word"

subsection \<open>ELF structures (\<^verbatim>\<open>elf.h\<close>)\<close>

text \<open>
  The fields the loaders use. \<open>'w\<close> is the type of addresses, offsets and sizes:
  \<open>u32\<close> for \<^verbatim>\<open>Elf32_Ehdr\<close>/\<^verbatim>\<open>Elf32_Phdr\<close>, \<open>u64\<close> for \<^verbatim>\<open>Elf64_Ehdr\<close>/\<^verbatim>\<open>Elf64_Phdr\<close>.
\<close>

record 'w Elf_Ehdr =
  e_ident :: "byte list"
  e_entry :: 'w
  e_phoff :: 'w
  e_phnum :: u16

record 'w Elf_Phdr =
  p_type :: u32
  p_offset :: 'w
  p_vaddr :: 'w
  p_filesz :: 'w
  p_memsz :: 'w

definition ELFMAG0 :: byte where "ELFMAG0 = 0x7f"
definition ELFMAG1 :: byte where "ELFMAG1 = 0x45"
definition ELFMAG2 :: byte where "ELFMAG2 = 0x4c"
definition ELFMAG3 :: byte where "ELFMAG3 = 0x46"

text \<open>
  \<^verbatim>\<open>f_read(&file, &elfHeader, sizeof(elfHeader), ...)\<close> fills the structure with the bytes
  of the file. \<^verbatim>\<open>elf.h\<close> is a system header; the layout is the one of the ELF
  specification, and both processors run little-endian.
\<close>

fun le_nat :: "byte list \<Rightarrow> nat" where
  "le_nat [] = 0"
| "le_nat (b # bs) = unat b + 256 * le_nat bs"

definition le_word :: "byte list \<Rightarrow> 'a::len word" where
  "le_word bs = of_nat (le_nat bs)"

definition field :: "nat \<Rightarrow> nat \<Rightarrow> byte list \<Rightarrow> byte list" where
  "field off len bs = take len (drop off bs)"

definition Elf32_Ehdr_of :: "byte list \<Rightarrow> u32 Elf_Ehdr" where
  "Elf32_Ehdr_of bs =
     \<lparr>e_ident = field 0 16 bs, e_entry = le_word (field 24 4 bs),
      e_phoff = le_word (field 28 4 bs), e_phnum = le_word (field 44 2 bs)\<rparr>"

definition Elf32_Phdr_of :: "byte list \<Rightarrow> u32 Elf_Phdr" where
  "Elf32_Phdr_of bs =
     \<lparr>p_type = le_word (field 0 4 bs), p_offset = le_word (field 4 4 bs),
      p_vaddr = le_word (field 8 4 bs), p_filesz = le_word (field 16 4 bs),
      p_memsz = le_word (field 20 4 bs)\<rparr>"

definition Elf64_Ehdr_of :: "byte list \<Rightarrow> u64 Elf_Ehdr" where
  "Elf64_Ehdr_of bs =
     \<lparr>e_ident = field 0 16 bs, e_entry = le_word (field 24 8 bs),
      e_phoff = le_word (field 32 8 bs), e_phnum = le_word (field 56 2 bs)\<rparr>"

definition Elf64_Phdr_of :: "byte list \<Rightarrow> u64 Elf_Phdr" where
  "Elf64_Phdr_of bs =
     \<lparr>p_type = le_word (field 0 4 bs), p_offset = le_word (field 8 8 bs),
      p_vaddr = le_word (field 16 8 bs), p_filesz = le_word (field 32 8 bs),
      p_memsz = le_word (field 40 8 bs)\<rparr>"

text \<open>What distinguishes the two loaders: the sizes of the structures and their layout.\<close>

record 'w elf_class =
  sizeof_Ehdr :: nat
  sizeof_Phdr :: nat
  Ehdr_of :: "byte list \<Rightarrow> 'w Elf_Ehdr"
  Phdr_of :: "byte list \<Rightarrow> 'w Elf_Phdr"

definition ELF32 :: "u32 elf_class" where
  "ELF32 = \<lparr>sizeof_Ehdr = 52, sizeof_Phdr = 32, Ehdr_of = Elf32_Ehdr_of, Phdr_of = Elf32_Phdr_of\<rparr>"

definition ELF64 :: "u64 elf_class" where
  "ELF64 = \<lparr>sizeof_Ehdr = 64, sizeof_Phdr = 56, Ehdr_of = Elf64_Ehdr_of, Phdr_of = Elf64_Phdr_of\<rparr>"

subsection \<open>The collaborators: FatFs, the heap, the hand-off structure\<close>

text \<open>
  FatFs (\<^verbatim>\<open>ff.h\<close>) is outside the repository. A file object is the file's bytes and the
  read pointer. \<^verbatim>\<open>f_read\<close> returns a status and at most \<open>btr\<close> bytes from the read
  pointer on; what the card does at each call is an input of the model (\<open>read_outcome\<close>):
  the whole of what is there, at most \<open>k\<close> bytes of it, or an error.
  \<^verbatim>\<open>f_lseek\<close> on a file opened for reading stops at the end of the file.
  Sizes and offsets of files are natural numbers: \<^verbatim>\<open>FSIZE_t\<close> is taken wide enough for
  the file and for the offsets passed to \<^verbatim>\<open>f_lseek\<close>, and the comparisons of the loader
  with \<^verbatim>\<open>f_size\<close> are comparisons of unsigned values.
\<close>

datatype FRESULT = FR_OK | FR_DISK_ERR

record FIL =
  fdata :: "byte list"
  fptr :: nat

datatype read_outcome = Complete | Partial nat | Failed

definition f_size :: "FIL \<Rightarrow> nat" where
  "f_size fp = length (fdata fp)"

definition f_lseek :: "FIL \<Rightarrow> nat \<Rightarrow> FIL" where
  "f_lseek fp ofs = fp\<lparr>fptr := min ofs (f_size fp)\<rparr>"

definition f_read :: "FIL \<Rightarrow> nat \<Rightarrow> read_outcome \<Rightarrow> FRESULT \<times> byte list \<times> FIL" where
  "f_read fp btr outcome =
     (let avail = take btr (drop (fptr fp) (fdata fp)) in
      case outcome of
        Failed \<Rightarrow> (FR_DISK_ERR, [], fp)
      | Partial k \<Rightarrow> (FR_OK, take k avail, fp\<lparr>fptr := fptr fp + length (take k avail)\<rparr>)
      | Complete \<Rightarrow> (FR_OK, avail, fp\<lparr>fptr := fptr fp + length avail\<rparr>))"

text \<open>
  The platform: whether \<^verbatim>\<open>f_mount\<close> answers \<^verbatim>\<open>FR_OK\<close>, the files \<^verbatim>\<open>f_open\<close> finds, and
  whether \<^verbatim>\<open>malloc\<close> of a given size returns a block.
\<close>

record platform =
  mount_ok :: bool
  files :: "string \<Rightarrow> byte list option"
  malloc_ok :: "nat \<Rightarrow> bool"

definition f_open :: "platform \<Rightarrow> string \<Rightarrow> FIL option" where
  "f_open pf file_name = map_option (\<lambda>bs. \<lparr>fdata = bs, fptr = 0\<rparr>) (files pf file_name)"

record ATFHandoffEntry =
  EntryPoint :: u64
  PartitionFlags :: u32

record ATFHandoffParamsStruct =
  MagicValue :: "byte list"
  NumEntries :: u32
  Entry :: "ATFHandoffEntry list"

definition MAX_ENTRIES :: nat where "MAX_ENTRIES = 10"

subsection \<open>The machine: memory, pending storage behaviour, and what was done\<close>

text \<open>
  The effects of the programs on the outside, in order: files opened and closed, blocks
  allocated and freed, bytes written to physical memory (\<open>Memcpy\<close>, \<open>Memset\<close>),
  \<^verbatim>\<open>Xil_DCacheFlushRange\<close> calls, the branch to the loaded program, the busy wait,
  accesses to the hardware registers, and the local hand-off structure as it is when
  \<^verbatim>\<open>mock_fsbl_SetATFHandoffParams\<close> returns. \<^verbatim>\<open>xil_printf\<close> output is left out.
\<close>

datatype 'w event =
    Opened
  | Closed
  | Allocated nat
  | Freed
  | Memcpy 'w "byte list"
  | Flush 'w nat
  | Memset 'w nat
  | Branch 'w
  | Delay nat
  | RegRead u32
  | RegWrite u32 u32
  | LocalStruct 'w ATFHandoffParamsStruct

record 'w machine =
  mem :: "'w \<Rightarrow> byte"
  trace :: "'w event list"
  pending :: "read_outcome list"

definition emit :: "'w event list \<Rightarrow> 'w machine \<Rightarrow> 'w machine" where
  "emit es s = s\<lparr>trace := trace s @ es\<rparr>"

definition next_outcome :: "'w machine \<Rightarrow> read_outcome" where
  "next_outcome s = (case pending s of [] \<Rightarrow> Complete | out # _ \<Rightarrow> out)"

definition consume_outcome :: "'w machine \<Rightarrow> 'w machine" where
  "consume_outcome s = s\<lparr>pending := tl (pending s)\<rparr>"

fun memcpy :: "('a::len word \<Rightarrow> byte) \<Rightarrow> 'a word \<Rightarrow> byte list \<Rightarrow> ('a word \<Rightarrow> byte)" where
  "memcpy m dst [] = m"
| "memcpy m dst (b # bs) = memcpy (m(dst := b)) (dst + 1) bs"

definition memset :: "('a::len word \<Rightarrow> byte) \<Rightarrow> 'a word \<Rightarrow> byte \<Rightarrow> nat \<Rightarrow> ('a word \<Rightarrow> byte)" where
  "memset m dst c n = memcpy m dst (replicate n c)"

subsection \<open>The loader\<close>

text \<open>
  The failures of a load. The source returns \<^verbatim>\<open>-1\<close> at each of them, after a message:
  \<^item> \<open>StorageUnavailable\<close>: "Failed to mount SD card." or "Failed to open file";
  \<^item> \<open>ShortRead\<close>: "Failed to read ELF header";
  \<^item> \<open>BadMagic\<close>: "File is not a valid ELF file";
  \<^item> \<open>InvalidProgramHeaderOffset\<close>: "Invalid program header offset.";
  \<^item> \<open>AllocationFailure\<close>: "Memory allocation for program headers failed.";
  \<^item> \<open>TruncatedTable\<close>: "Failed to read program headers";
  \<^item> \<open>SegmentOutOfBounds\<close>: "Invalid segment offset for program header";
  \<^item> \<open>ShortSegmentRead\<close>: "Error reading segment data at offset".
\<close>

datatype load_error =
    StorageUnavailable
  | ShortRead
  | BadMagic
  | InvalidProgramHeaderOffset
  | AllocationFailure
  | TruncatedTable
  | SegmentOutOfBounds
  | ShortSegmentRead

definition CHUNK_SIZE :: nat where "CHUNK_SIZE = 4096"

text \<open>
  \<^verbatim>\<open>while (bytesToRead > 0) { ... }\<close>: the chunked copy of one segment. The result is
  \<open>None\<close> when the loop left the function through \<^verbatim>\<open>return -1\<close> (after
  \<^verbatim>\<open>free(programHeaders); f_close(&file);\<close>), and the final \<^verbatim>\<open>bytesLoaded\<close> otherwise.
  \<open>store_chunk\<close> is the \<^verbatim>\<open>memcpy\<close> of the bytes read and the \<^verbatim>\<open>Xil_DCacheFlushRange\<close>
  that follows it; its \<open>bytesLoaded\<close> is the value before \<^verbatim>\<open>bytesLoaded += bytesRead\<close>.
  The flushed address is \<^verbatim>\<open>(uint32_t)(segmentMemory + bytesLoaded - bytesRead)\<close>, taken
  after that update, and passed on at pointer width.
\<close>

definition store_chunk :: "'a::len word \<Rightarrow> nat \<Rightarrow> byte list \<Rightarrow> 'a word machine \<Rightarrow> 'a word machine" where
  "store_chunk segmentMemory bytesLoaded buffer s =
     emit [Memcpy (segmentMemory + of_nat bytesLoaded) buffer,
           Flush (ucast (ucast (segmentMemory + of_nat (bytesLoaded + length buffer)
                                 - of_nat (length buffer)) :: u32)) (length buffer)]
       (s\<lparr>mem := memcpy (mem s) (segmentMemory + of_nat bytesLoaded) buffer\<rparr>)"

function copy_chunks ::
  "FIL \<Rightarrow> 'a::len word \<Rightarrow> nat \<Rightarrow> nat \<Rightarrow> 'a word machine \<Rightarrow> nat option \<times> FIL \<times> 'a word machine" where
  "copy_chunks file segmentMemory bytesToRead bytesLoaded s =
     (if bytesToRead > 0 then
        (let chunkSize = (if bytesToRead > CHUNK_SIZE then CHUNK_SIZE else bytesToRead);
             rd = f_read file chunkSize (next_outcome s);
             fr = fst rd;
             buffer = fst (snd rd);
             file' = snd (snd rd);
             bytesRead = length buffer;
             s1 = consume_outcome s
         in if fr \<noteq> FR_OK \<or> bytesRead = 0 then (None, file', emit [Freed, Closed] s1)
            else
              copy_chunks file' segmentMemory (bytesToRead - bytesRead) (bytesLoaded + bytesRead)
                (store_chunk segmentMemory bytesLoaded buffer s1))
      else (Some bytesLoaded, file, s))"
  by pat_completeness auto
termination
  by (relation "measure (\<lambda>(file, segmentMemory, bytesToRead, bytesLoaded, s). bytesToRead)") auto

declare copy_chunks.simps [simp del]

text \<open>
  The body of \<^verbatim>\<open>for (int i = 0; i < elfHeader.e_phnum; i++)\<close> for one program header.
  \<^verbatim>\<open>p_offset + p_filesz\<close> is computed at the width of the fields. The result is the
  failure, if the body returned \<^verbatim>\<open>-1\<close>.
\<close>

definition load_segment ::
  "FIL \<Rightarrow> 'a::len word Elf_Phdr \<Rightarrow> 'a word machine \<Rightarrow> load_error option \<times> FIL \<times> 'a word machine" where
  "load_segment file programHeader s =
     (if unat (p_offset programHeader + p_filesz programHeader) > f_size file
      then (Some SegmentOutOfBounds, file, emit [Freed, Closed] s)
      else
        (let file1 = f_lseek file (unat (p_offset programHeader));
             segmentMemory = p_vaddr programHeader
         in case copy_chunks file1 segmentMemory (unat (p_filesz programHeader)) 0 s of
              (None, file2, s2) \<Rightarrow> (Some ShortSegmentRead, file2, s2)
            | (Some bytesLoaded, file2, s2) \<Rightarrow>
                (None, file2,
                 if p_memsz programHeader > p_filesz programHeader
                 then emit [Memset (segmentMemory + of_nat bytesLoaded)
                              (unat (p_memsz programHeader - p_filesz programHeader))]
                        (s2\<lparr>mem := memset (mem s2) (segmentMemory + of_nat bytesLoaded) 0
                                      (unat (p_memsz programHeader - p_filesz programHeader))\<rparr>)
                 else s2)))"

fun load_segments ::
  "FIL \<Rightarrow> 'a::len word Elf_Phdr list \<Rightarrow> 'a word machine \<Rightarrow> load_error option \<times> FIL \<times> 'a word machine" where
  "load_segments file [] s = (None, file, s)"
| "load_segments file (programHeader # rest) s =
     (case load_segment file programHeader s of
        (Some err, file', s') \<Rightarrow> (Some err, file', s')
      | (None, file', s') \<Rightarrow> load_segments file' rest s')"

text \<open>The entries of the table read by the single \<^verbatim>\<open>f_read\<close> into \<^verbatim>\<open>programHeaders\<close>.\<close>

definition table_entries :: "'w elf_class \<Rightarrow> nat \<Rightarrow> byte list \<Rightarrow> 'w Elf_Phdr list" where
  "table_entries cls n bs =
     map (\<lambda>i. Phdr_of cls (field (i * sizeof_Phdr cls) (sizeof_Phdr cls) bs)) [0..<n]"

text \<open>
  The common body of \<^verbatim>\<open>load_elf32\<close> and \<^verbatim>\<open>load_elf64\<close>, from \<^verbatim>\<open>f_mount\<close> to the
  \<^verbatim>\<open>f_close\<close> after "All segments loaded successfully."; on success the result is the
  ELF header that was read.
\<close>

definition load_elf ::
  "'a::len word elf_class \<Rightarrow> platform \<Rightarrow> string \<Rightarrow> 'a word machine
     \<Rightarrow> (load_error + 'a word Elf_Ehdr) \<times> 'a word machine" where
  "load_elf cls pf file_name s =
     (if \<not> mount_ok pf then (Inl StorageUnavailable, s)
      else case f_open pf file_name of
        None \<Rightarrow> (Inl StorageUnavailable, s)
      | Some file0 \<Rightarrow>
         (let s0 = emit [Opened] s;
              rd = f_read file0 (sizeof_Ehdr cls) (next_outcome s0);
              s1 = consume_outcome s0;
              file1 = snd (snd rd)
          in if fst rd \<noteq> FR_OK \<or> length (fst (snd rd)) \<noteq> sizeof_Ehdr cls
             then (Inl ShortRead, emit [Closed] s1)
             else
              (let elfHeader = Ehdr_of cls (fst (snd rd))
               in if e_ident elfHeader ! 0 \<noteq> ELFMAG0 \<or> e_ident elfHeader ! 1 \<noteq> ELFMAG1 \<or>
                     e_ident elfHeader ! 2 \<noteq> ELFMAG2 \<or> e_ident elfHeader ! 3 \<noteq> ELFMAG3
                  then (Inl BadMagic, emit [Closed] s1)
                  else if unat (e_phoff elfHeader) \<ge> f_size file1
                  then (Inl InvalidProgramHeaderOffset, emit [Closed] s1)
                  else
                   (let nbytes = unat (e_phnum elfHeader) * sizeof_Phdr cls
                    in if \<not> malloc_ok pf nbytes
                       then (Inl AllocationFailure, emit [Closed] s1)
                       else
                        (let s2 = emit [Allocated nbytes] s1;
                             file2 = f_lseek file1 (unat (e_phoff elfHeader));
                             rd2 = f_read file2 nbytes (next_outcome s2);
                             s3 = consume_outcome s2;
                             file3 = snd (snd rd2)
                         in if fst rd2 \<noteq> FR_OK \<or> length (fst (snd rd2)) \<noteq> nbytes
                            then (Inl TruncatedTable, emit [Freed, Closed] s3)
                            else
                             (let programHeaders =
                                    table_entries cls (unat (e_phnum elfHeader)) (fst (snd rd2))
                              in case load_segments file3 programHeaders s3 of
                                   (Some err, file4, s4) \<Rightarrow> (Inl err, s4)
                                 | (None, file4, s4) \<Rightarrow>
                                     (Inr elfHeader, emit [Freed, Closed] s4)))))))"

text \<open>
  \<^verbatim>\<open>load_elf32\<close> ends with \<^verbatim>\<open>uint32_t entry_point = elfHeader.e_entry;\<close> and the
  \<^verbatim>\<open>blx\<close> to it. The result is the failure or the address branched to; the C function
  returns \<^verbatim>\<open>(uint8_t)-1\<close> in the first case, and \<^verbatim>\<open>0\<close> if the loaded program ever returns.
\<close>

definition load_elf32 :: "platform \<Rightarrow> string \<Rightarrow> u32 machine \<Rightarrow> (load_error + u32) \<times> u32 machine" where
  "load_elf32 pf file_name s =
     (case load_elf ELF32 pf file_name s of
        (Inl err, s') \<Rightarrow> (Inl err, s')
      | (Inr elfHeader, s') \<Rightarrow>
          (let entry_point = e_entry elfHeader
           in (Inr entry_point, emit [Branch entry_point] s')))"

definition load_elf32_return :: "load_error + u32 \<Rightarrow> byte" where
  "load_elf32_return r = (case r of Inl err \<Rightarrow> - 1 | Inr entry_point \<Rightarrow> 0)"

text \<open>
  \<^verbatim>\<open>load_elf64\<close> ends with \<^verbatim>\<open>uint32_t entry_point = elfHeader.e_entry; return entry_point;\<close>
  The result is the failure or the \<^verbatim>\<open>uint64_t\<close> returned; at a failure the C function
  returns \<^verbatim>\<open>(uint64_t)-1\<close>.
\<close>

definition load_elf64 :: "platform \<Rightarrow> string \<Rightarrow> u64 machine \<Rightarrow> (load_error + u64) \<times> u64 machine" where
  "load_elf64 pf file_name s =
     (case load_elf ELF64 pf file_name s of
        (Inl err, s') \<Rightarrow> (Inl err, s')
      | (Inr elfHeader, s') \<Rightarrow>
          (let entry_point = (ucast (e_entry elfHeader) :: u32)
           in (Inr (ucast entry_point), s')))"

definition load_elf64_return :: "load_error + u64 \<Rightarrow> u64" where
  "load_elf64_return r = (case r of Inl err \<Rightarrow> - 1 | Inr entry_point \<Rightarrow> entry_point)"

subsection \<open>The hand-off to the other cores (\<^verbatim>\<open>apu_bootloader_sd.c\<close>)\<close>

definition GLOBAL_GEN_STORAGE6 :: u32 where "GLOBAL_GEN_STORAGE6 = 0xFFD80048"
definition RVBARADDR0L :: u32 where "RVBARADDR0L = 0xFD5C0040"
definition RVBARADDR0H :: u32 where "RVBARADDR0H = 0xFD5C0044"
definition RVBARADDR1L :: u32 where "RVBARADDR1L = 0xFD5C0048"
definition RVBARADDR1H :: u32 where "RVBARADDR1H = 0xFD5C004C"
definition RVBARADDR2L :: u32 where "RVBARADDR2L = 0xFD5C0050"
definition RVBARADDR2H :: u32 where "RVBARADDR2H = 0xFD5C0054"
definition RVBARADDR3L :: u32 where "RVBARADDR3L = 0xFD5C0058"
definition RVBARADDR3H :: u32 where "RVBARADDR3H = 0xFD5C005C"
definition RVBARADDR_LOW_VALU :: u32 where "RVBARADDR_LOW_VALU = 0x0"
definition RST_FPD_APU :: u32 where "RST_FPD_APU = 0xFD1A0104"
definition RST_FPD_APU_VALU :: u32 where "RST_FPD_APU_VALU = 0xF"
definition RST_FPD_APU_CLER :: u32 where "RST_FPD_APU_CLER = 0x0"

definition reset_apu_cores :: "u32 \<Rightarrow> 'w machine \<Rightarrow> 'w machine" where
  "reset_apu_cores v s = emit [RegWrite RST_FPD_APU v] s"

definition set_apu_rvba :: "u32 \<Rightarrow> 'w machine \<Rightarrow> 'w machine" where
  "set_apu_rvba entrypoint s =
     emit [RegWrite RVBARADDR0L RVBARADDR_LOW_VALU,
           RegWrite RVBARADDR1L RVBARADDR_LOW_VALU,
           RegWrite RVBARADDR2L RVBARADDR_LOW_VALU,
           RegWrite RVBARADDR3L RVBARADDR_LOW_VALU,
           RegWrite RVBARADDR0H entrypoint,
           RegWrite RVBARADDR1H entrypoint,
           RegWrite RVBARADDR2H entrypoint,
           RegWrite RVBARADDR3H entrypoint] s"

definition delay_ms :: "nat \<Rightarrow> 'w machine \<Rightarrow> 'w machine" where
  "delay_ms milliseconds s = emit [Delay milliseconds] s"

text \<open>
  \<^verbatim>\<open>ATFHandoffParams\<close> is a local variable without initialiser: its bytes are what the
  stack holds at the call. The frame gives that content and the address of the variable.
  \<open>ATFHandoffParams_filled\<close> is the variable after the assignments of
  \<^verbatim>\<open>mock_fsbl_SetATFHandoffParams\<close>.
\<close>

record frame =
  frame_addr :: u64
  frame_content :: ATFHandoffParamsStruct

definition ATFHandoffParams_filled ::
  "ATFHandoffParamsStruct \<Rightarrow> u32 \<Rightarrow> u32 \<Rightarrow> u32 \<Rightarrow> ATFHandoffParamsStruct" where
  "ATFHandoffParams_filled ATFHandoffParams EntryCount PartitionHeader Flags =
     (let p1 = (if EntryCount = 0
                then ATFHandoffParams\<lparr>MagicValue :=
                       (MagicValue ATFHandoffParams)[0 := 0x58, 1 := 0x4C, 2 := 0x4E, 3 := 0x58]\<rparr>
                else ATFHandoffParams);
          p2 = p1\<lparr>NumEntries := EntryCount + 1\<rparr>
      in if unat EntryCount < MAX_ENTRIES
         then p2\<lparr>Entry := (Entry p2)[unat EntryCount :=
                     \<lparr>EntryPoint = ucast PartitionHeader, PartitionFlags = Flags\<rparr>]\<rparr>
         else p2)"

definition mock_fsbl_SetATFHandoffParams ::
  "frame \<Rightarrow> u32 \<Rightarrow> u32 \<Rightarrow> u32 \<Rightarrow> u64 machine \<Rightarrow> u64 machine" where
  "mock_fsbl_SetATFHandoffParams fr EntryCount PartitionHeader Flags s =
     emit [LocalStruct (frame_addr fr)
             (ATFHandoffParams_filled (frame_content fr) EntryCount PartitionHeader Flags),
           RegWrite GLOBAL_GEN_STORAGE6 (ucast (frame_addr fr))] s"

text \<open>
  \<^verbatim>\<open>main\<close> of \<^verbatim>\<open>apu_bootloader_sd.c\<close>, up to the \<^verbatim>\<open>while(1)\<close> in which it stays: the
  result is the machine at that point. \<^verbatim>\<open>xil_printf\<close> reads the four \<^verbatim>\<open>RVBARADDRnH\<close>
  registers before and after \<^verbatim>\<open>set_apu_rvba\<close>.
\<close>

definition print_rvbar :: "'w machine \<Rightarrow> 'w machine" where
  "print_rvbar s =
     emit [RegRead RVBARADDR0H, RegRead RVBARADDR1H, RegRead RVBARADDR2H, RegRead RVBARADDR3H] s"

definition main_apu :: "platform \<Rightarrow> frame \<Rightarrow> u64 machine \<Rightarrow> u64 machine" where
  "main_apu pf fr s =
     (let s1 = delay_ms 3000 s;
          l1 = load_elf64 pf ''bl31.elf'' s1;
          bl31_entrypoint = (ucast (load_elf64_return (fst l1)) :: u32);
          l2 = load_elf64 pf ''u-boot.elf'' (snd l1);
          s3 = mock_fsbl_SetATFHandoffParams fr 0 bl31_entrypoint 0 (snd l2);
          s4 = reset_apu_cores RST_FPD_APU_VALU s3;
          s5 = print_rvbar s4;
          s6 = set_apu_rvba bl31_entrypoint s5;
          s7 = print_rvbar s6;
          s8 = reset_apu_cores RST_FPD_APU_CLER s7
      in s8)"

text \<open>\<^verbatim>\<open>main\<close> of \<^verbatim>\<open>rpu_bootloader_sd.c\<close>: the load, whose result is ignored.\<close>

definition main_rpu :: "platform \<Rightarrow> u32 machine \<Rightarrow> u32 machine" where
  "main_rpu pf s = snd (load_elf32 pf ''vxWorks.elf'' s)"

subsection \<open>Concrete images and platforms\<close>

text \<open>
  A 32-bit image with one program header: the 52 bytes of the ELF header (magic,
  \<^verbatim>\<open>e_entry = 0x1000\<close>, \<^verbatim>\<open>e_phoff = 52\<close>, \<^verbatim>\<open>e_phnum = 1\<close>), the 32 bytes of the program
  header, whose fields are given as little-endian bytes, and the payload from offset 84 on.
\<close>

definition elf32_image ::
  "byte list \<Rightarrow> byte list \<Rightarrow> byte list \<Rightarrow> byte list \<Rightarrow> byte list \<Rightarrow> byte list \<Rightarrow> byte list" where
  "elf32_image ptype offset vaddr filesz memsz payload =
     [0x7f, 0x45, 0x4c, 0x46, 1, 1, 1, 0,  0, 0, 0, 0,  0, 0, 0, 0,
      2, 0, 0x28, 0,  1, 0, 0, 0,  0x00, 0x10, 0, 0,  52, 0, 0, 0,
      0, 0, 0, 0,  0, 0, 0, 0,  52, 0, 32, 0,  1, 0, 0, 0,  0, 0, 0, 0]
     @ ptype @ offset @ vaddr @ [0, 0, 0, 0] @ filesz @ memsz @ [5, 0, 0, 0,  0, 0, 0, 0]
     @ payload"

text \<open>
  A 64-bit image with one program header: the 64 bytes of the ELF header (\<^verbatim>\<open>e_phoff = 64\<close>,
  \<^verbatim>\<open>e_phnum = 1\<close>, \<^verbatim>\<open>e_entry\<close> as given), the 56 bytes of the program header and the
  payload from offset 120 on.
\<close>

definition elf64_image ::
  "byte list \<Rightarrow> byte list \<Rightarrow> byte list \<Rightarrow> byte list \<Rightarrow> byte list \<Rightarrow> byte list \<Rightarrow> byte list
     \<Rightarrow> byte list" where
  "elf64_image entry ptype offset vaddr filesz memsz payload =
     [0x7f, 0x45, 0x4c, 0x46, 2, 1, 1, 0,  0, 0, 0, 0,  0, 0, 0, 0,
      2, 0, 0xB7, 0,  1, 0, 0, 0]
     @ entry
     @ [64, 0, 0, 0, 0, 0, 0, 0,  0, 0, 0, 0, 0, 0, 0, 0,
        0, 0, 0, 0,  64, 0, 56, 0,  1, 0, 0, 0,  0, 0, 0, 0]
     @ ptype @ [5, 0, 0, 0] @ offset @ vaddr @ [0, 0, 0, 0, 0, 0, 0, 0] @ filesz @ memsz
     @ [0, 0, 0, 0, 0, 0, 0, 0]
     @ payload"

definition sd_card :: "(string \<times> byte list) list \<Rightarrow> platform" where
  "sd_card fs = \<lparr>mount_ok = True, files = map_of fs, malloc_ok = (\<lambda>n. True)\<rparr>"

definition blank :: "'w machine" where
  "blank = \<lparr>mem = (\<lambda>a. 0xFF), trace = [], pending = []\<rparr>"

definition stack_frame :: frame where
  "stack_frame =
     \<lparr>frame_addr = 0xFFFE0000,
      frame_content = \<lparr>MagicValue = [1, 2, 3, 4], NumEntries = 7,
                       Entry = replicate 10 \<lparr>EntryPoint = 9, PartitionFlags = 9\<rparr>\<rparr>\<rparr>"

text \<open>One loadable segment: 3 bytes at offset 84 to address \<open>0x1000\<close>, 5 bytes in memory.\<close>

definition img32_ok :: "byte list" where
  "img32_ok = elf32_image [1, 0, 0, 0] [84, 0, 0, 0] [0x00, 0x10, 0, 0] [3, 0, 0, 0] [5, 0, 0, 0]
                [0xAA, 0xBB, 0xCC]"

text \<open>Entry point \<open>0xFFFEA000\<close>; 3 bytes at offset 120 to address \<open>0x2000\<close>, 5 in memory.\<close>

definition img64_ok :: "byte list" where
  "img64_ok = elf64_image [0x00, 0xA0, 0xFE, 0xFF, 0, 0, 0, 0] [1, 0, 0, 0]
                [120, 0, 0, 0, 0, 0, 0, 0] [0x00, 0x20, 0, 0, 0, 0, 0, 0]
                [3, 0, 0, 0, 0, 0, 0, 0] [5, 0, 0, 0, 0, 0, 0, 0] [0x11, 0x22, 0x33]"

text \<open>The same with entry point \<open>0x100000000\<close>.\<close>

definition img64_high_entry :: "byte list" where
  "img64_high_entry = elf64_image [0, 0, 0, 0, 1, 0, 0, 0] [1, 0, 0, 0]
                [120, 0, 0, 0, 0, 0, 0, 0] [0x00, 0x20, 0, 0, 0, 0, 0, 0]
                [3, 0, 0, 0, 0, 0, 0, 0] [5, 0, 0, 0, 0, 0, 0, 0] [0x11, 0x22, 0x33]"

text \<open>Out of bounds: 16 bytes are declared at offset 84 of a file of 87 bytes.\<close>

definition img32_oob :: "byte list" where
  "img32_oob = elf32_image [1, 0, 0, 0] [84, 0, 0, 0] [0x00, 0x10, 0, 0] [16, 0, 0, 0] [16, 0, 0, 0]
                 [0xAA, 0xBB, 0xCC]"

text \<open>As \<open>img32_ok\<close>, but the segment type is \<^verbatim>\<open>PT_NOTE\<close> (4), not \<^verbatim>\<open>PT_LOAD\<close> (1).\<close>

definition PT_LOAD :: u32 where "PT_LOAD = 1"

definition img32_note :: "byte list" where
  "img32_note = elf32_image [4, 0, 0, 0] [84, 0, 0, 0] [0x00, 0x10, 0, 0] [3, 0, 0, 0] [5, 0, 0, 0]
                  [0xAA, 0xBB, 0xCC]"

text \<open>\<^verbatim>\<open>p_offset = 84\<close>, \<^verbatim>\<open>p_filesz = 0xFFFFFFFF\<close>, in a file of 88 bytes.\<close>

definition img32_wrap :: "byte list" where
  "img32_wrap = elf32_image [1, 0, 0, 0] [84, 0, 0, 0] [0x00, 0x10, 0, 0]
                  [0xFF, 0xFF, 0xFF, 0xFF] [0xFF, 0xFF, 0xFF, 0xFF] [0xAA, 0xBB, 0xCC, 0xDD]"

text \<open>Nothing in the file, 4 bytes in memory.\<close>

definition img32_bss :: "byte list" where
  "img32_bss = elf32_image [1, 0, 0, 0] [84, 0, 0, 0] [0x00, 0x10, 0, 0] [0, 0, 0, 0] [4, 0, 0, 0] []"

text \<open>A segment of 5000 bytes (\<open>0x1388\<close>), more than one chunk.\<close>

definition img32_big :: "byte list" where
  "img32_big = elf32_image [1, 0, 0, 0] [84, 0, 0, 0] [0x00, 0x10, 0, 0] [0x88, 0x13, 0, 0]
                 [0x88, 0x13, 0, 0] (replicate 5000 0x41)"



text \<open>
  Two loadable entries with the same destination: 2 bytes from offset 116 and 2 bytes from
  offset 118, both to \<open>0x1000\<close> (\<^verbatim>\<open>e_phnum = 2\<close>, 64 bytes of program headers).
\<close>

definition img32_overlap :: "byte list" where
  "img32_overlap =
     [0x7f, 0x45, 0x4c, 0x46, 1, 1, 1, 0,  0, 0, 0, 0,  0, 0, 0, 0,
      2, 0, 0x28, 0,  1, 0, 0, 0,  0x00, 0x10, 0, 0,  52, 0, 0, 0,
      0, 0, 0, 0,  0, 0, 0, 0,  52, 0, 32, 0,  2, 0, 0, 0,  0, 0, 0, 0,
      1, 0, 0, 0,  116, 0, 0, 0,  0x00, 0x10, 0, 0,  0, 0, 0, 0,
      2, 0, 0, 0,  2, 0, 0, 0,  5, 0, 0, 0,  0, 0, 0, 0,
      1, 0, 0, 0,  118, 0, 0, 0,  0x00, 0x10, 0, 0,  0, 0, 0, 0,
      2, 0, 0, 0,  2, 0, 0, 0,  5, 0, 0, 0,  0, 0, 0, 0,
      0xAA, 0xBB, 0xCC, 0xDD]"

text \<open>
  Entries of type \<^verbatim>\<open>PT_NOTE\<close>: \<open>img32_oob\<close> and \<open>img64_ok\<close> with that type, and a
  64-bit image whose \<^verbatim>\<open>PT_NOTE\<close> entry declares 16 bytes where the file has 3.
\<close>

definition img32_note_oob :: "byte list" where
  "img32_note_oob = elf32_image [4, 0, 0, 0] [84, 0, 0, 0] [0x00, 0x10, 0, 0] [16, 0, 0, 0]
                      [16, 0, 0, 0] [0xAA, 0xBB, 0xCC]"

definition img64_note :: "byte list" where
  "img64_note = elf64_image [0x00, 0xA0, 0xFE, 0xFF, 0, 0, 0, 0] [4, 0, 0, 0]
                  [120, 0, 0, 0, 0, 0, 0, 0] [0x00, 0x20, 0, 0, 0, 0, 0, 0]
                  [3, 0, 0, 0, 0, 0, 0, 0] [5, 0, 0, 0, 0, 0, 0, 0] [0x11, 0x22, 0x33]"

definition img64_note_oob :: "byte list" where
  "img64_note_oob = elf64_image [0x00, 0xA0, 0xFE, 0xFF, 0, 0, 0, 0] [4, 0, 0, 0]
                      [120, 0, 0, 0, 0, 0, 0, 0] [0x00, 0x20, 0, 0, 0, 0, 0, 0]
                      [16, 0, 0, 0, 0, 0, 0, 0] [16, 0, 0, 0, 0, 0, 0, 0] [0x11, 0x22, 0x33]"



subsection \<open>What a trace says\<close>

text \<open>
  The resources a load holds: whether the file is open and whether the program-header
  table is allocated. A trace that closes a file that is not open, opens one twice, frees
  what is not allocated or allocates twice has no resource state (\<open>None\<close>).
\<close>

fun resource_step :: "bool \<times> bool \<Rightarrow> 'w event \<Rightarrow> (bool \<times> bool) option" where
  "resource_step (opened, allocated) Opened = (if opened then None else Some (True, allocated))"
| "resource_step (opened, allocated) Closed = (if opened then Some (False, allocated) else None)"
| "resource_step (opened, allocated) (Allocated n) =
     (if allocated then None else Some (opened, True))"
| "resource_step (opened, allocated) Freed = (if allocated then Some (opened, False) else None)"
| "resource_step (opened, allocated) e = Some (opened, allocated)"

fun resources_after :: "bool \<times> bool \<Rightarrow> 'w event list \<Rightarrow> (bool \<times> bool) option" where
  "resources_after st [] = Some st"
| "resources_after st (e # es) =
     (case resource_step st e of None \<Rightarrow> None | Some st' \<Rightarrow> resources_after st' es)"

definition events_since :: "'w machine \<Rightarrow> 'w machine \<Rightarrow> 'w event list" where
  "events_since s s' = drop (length (trace s)) (trace s')"

text \<open>The events of the loaders proper: no branch, no register access, no hand-off.\<close>

fun loader_event :: "'w event \<Rightarrow> bool" where
  "loader_event (Branch a) = False"
| "loader_event (Delay n) = False"
| "loader_event (RegRead r) = False"
| "loader_event (RegWrite r v) = False"
| "loader_event (LocalStruct a d) = False"
| "loader_event e = True"

definition RVBAR_registers :: "u32 list" where
  "RVBAR_registers =
     [RVBARADDR0L, RVBARADDR0H, RVBARADDR1L, RVBARADDR1H,
      RVBARADDR2L, RVBARADDR2H, RVBARADDR3L, RVBARADDR3H]"

text \<open>
  Whether the cores are held in reset after a trace: the last value written to
  \<^verbatim>\<open>RST_FPD_APU\<close> is \<^verbatim>\<open>RST_FPD_APU_VALU\<close>. The first argument is the state before the trace.
\<close>

fun cores_held :: "bool \<Rightarrow> 'w event list \<Rightarrow> bool" where
  "cores_held held [] = held"
| "cores_held held (RegWrite r v # es) =
     cores_held (if r = RST_FPD_APU then v = RST_FPD_APU_VALU else held) es"
| "cores_held held (e # es) = cores_held held es"

subsection \<open>What a loaded image is\<close>

text \<open>
  The header and the program headers of a file, as the loader reads them: the header from
  the first bytes, the table of \<^verbatim>\<open>e_phnum\<close> entries from offset \<^verbatim>\<open>e_phoff\<close>.
\<close>

definition image_header :: "'w elf_class \<Rightarrow> byte list \<Rightarrow> 'w Elf_Ehdr" where
  "image_header cls bs = Ehdr_of cls (take (sizeof_Ehdr cls) bs)"

definition image_phdrs :: "'a::len word elf_class \<Rightarrow> byte list \<Rightarrow> 'a word Elf_Phdr list" where
  "image_phdrs cls bs =
     table_entries cls (unat (e_phnum (image_header cls bs)))
       (take (unat (e_phnum (image_header cls bs)) * sizeof_Phdr cls)
          (drop (unat (e_phoff (image_header cls bs))) bs))"

text \<open>
  A well-formed image: the file holds a whole header with the ELF magic, the table starts
  inside the file and lies inside it, and the extent of every entry, as a natural number,
  lies inside the file.
\<close>

definition well_formed_image :: "'a::len word elf_class \<Rightarrow> byte list \<Rightarrow> bool" where
  "well_formed_image cls bs \<longleftrightarrow>
     sizeof_Ehdr cls \<le> length bs \<and>
     e_ident (image_header cls bs) ! 0 = ELFMAG0 \<and> e_ident (image_header cls bs) ! 1 = ELFMAG1 \<and>
     e_ident (image_header cls bs) ! 2 = ELFMAG2 \<and> e_ident (image_header cls bs) ! 3 = ELFMAG3 \<and>
     unat (e_phoff (image_header cls bs)) < length bs \<and>
     unat (e_phoff (image_header cls bs)) +
       unat (e_phnum (image_header cls bs)) * sizeof_Phdr cls \<le> length bs \<and>
     (\<forall>ph \<in> set (image_phdrs cls bs). unat (p_offset ph) + unat (p_filesz ph) \<le> length bs)"

text \<open>
  A platform on which the load of the file meets no obstacle: the card mounts, the file is
  there, the table can be allocated, and every read returns all that is there.
\<close>

definition loads_from ::
  "'a::len word elf_class \<Rightarrow> platform \<Rightarrow> string \<Rightarrow> byte list \<Rightarrow> 'a word machine \<Rightarrow> bool" where
  "loads_from cls pf file_name bs s \<longleftrightarrow>
     mount_ok pf \<and> files pf file_name = Some bs \<and>
     malloc_ok pf (unat (e_phnum (image_header cls bs)) * sizeof_Phdr cls) \<and>
     pending s = [] \<and> well_formed_image cls bs"

text \<open>
  The addresses an entry is loaded to, and what memory holds there when the entry is in
  place: the bytes of the file at \<open>[p_offset, p_offset + p_filesz)\<close> from \<open>p_vaddr\<close> on, and
  zero at \<open>[p_vaddr + p_filesz, p_vaddr + p_memsz)\<close>.
\<close>

definition destination :: "'a::len word Elf_Phdr \<Rightarrow> 'a word set" where
  "destination ph =
     (\<lambda>i. p_vaddr ph + of_nat i) ` {..< max (unat (p_filesz ph)) (unat (p_memsz ph))}"

definition segment_placed :: "byte list \<Rightarrow> 'a::len word Elf_Phdr \<Rightarrow> ('a word \<Rightarrow> byte) \<Rightarrow> bool" where
  "segment_placed bs ph m \<longleftrightarrow>
     (\<forall>i < unat (p_filesz ph). m (p_vaddr ph + of_nat i) = bs ! (unat (p_offset ph) + i)) \<and>
     (\<forall>i. unat (p_filesz ph) \<le> i \<and> i < unat (p_memsz ph) \<longrightarrow> m (p_vaddr ph + of_nat i) = 0)"

text \<open>Every entry whose destination no later entry touches is in place.\<close>

definition segments_placed :: "'a::len word elf_class \<Rightarrow> byte list \<Rightarrow> ('a word \<Rightarrow> byte) \<Rightarrow> bool" where
  "segments_placed cls bs m \<longleftrightarrow>
     (\<forall>k < length (image_phdrs cls bs).
        (\<forall>j. k < j \<and> j < length (image_phdrs cls bs) \<longrightarrow>
           destination (image_phdrs cls bs ! j) \<inter> destination (image_phdrs cls bs ! k) = {})
        \<longrightarrow> segment_placed bs (image_phdrs cls bs ! k) m)"

text \<open>Memory after the body of the loop has run for one entry, when no read fails.\<close>

definition segment_memory ::
  "byte list \<Rightarrow> 'a::len word Elf_Phdr \<Rightarrow> ('a word \<Rightarrow> byte) \<Rightarrow> ('a word \<Rightarrow> byte)" where
  "segment_memory bs ph m =
     (let m1 = memcpy m (p_vaddr ph) (take (unat (p_filesz ph)) (drop (unat (p_offset ph)) bs))
      in if p_memsz ph > p_filesz ph
         then memset m1 (p_vaddr ph + of_nat (unat (p_filesz ph))) 0
                (unat (p_memsz ph - p_filesz ph))
         else m1)"

text \<open>
  A load that gets as far as the loop over the program headers: as \<open>loads_from\<close>, with
  nothing asked of the extents of the entries.
\<close>

definition reaches_entries ::
  "'a::len word elf_class \<Rightarrow> platform \<Rightarrow> string \<Rightarrow> byte list \<Rightarrow> 'a word machine \<Rightarrow> bool" where
  "reaches_entries cls pf file_name bs s \<longleftrightarrow>
     mount_ok pf \<and> files pf file_name = Some bs \<and>
     malloc_ok pf (unat (e_phnum (image_header cls bs)) * sizeof_Phdr cls) \<and>
     pending s = [] \<and>
     sizeof_Ehdr cls \<le> length bs \<and>
     e_ident (image_header cls bs) ! 0 = ELFMAG0 \<and> e_ident (image_header cls bs) ! 1 = ELFMAG1 \<and>
     e_ident (image_header cls bs) ! 2 = ELFMAG2 \<and> e_ident (image_header cls bs) ! 3 = ELFMAG3 \<and>
     unat (e_phoff (image_header cls bs)) < length bs \<and>
     unat (e_phoff (image_header cls bs)) +
       unat (e_phnum (image_header cls bs)) * sizeof_Phdr cls \<le> length bs"

text \<open>Entry \<open>k\<close> of the table is one whose destination no later entry writes to.\<close>

definition last_writer :: "'a::len word elf_class \<Rightarrow> byte list \<Rightarrow> nat \<Rightarrow> bool" where
  "last_writer cls bs k \<longleftrightarrow>
     k < length (image_phdrs cls bs) \<and>
     (\<forall>j. k < j \<and> j < length (image_phdrs cls bs) \<longrightarrow>
        destination (image_phdrs cls bs ! j) \<inter> destination (image_phdrs cls bs ! k) = {})"

text \<open>
  Entry \<open>k\<close> is the first whose extent, as a natural number, goes beyond the end of the
  file. In \<open>first_beyond_file\<close> the sum fits the width of the fields, so that the check of
  the loader sees it; in \<open>first_past_end\<close> the sum of the loader has wrapped around and
  passes the check, so that the copy of the entry runs into the end of the file: with
  complete reads this is where a chunk read returns fewer bytes than requested, or none.
\<close>

definition first_beyond_file :: "'a::len word elf_class \<Rightarrow> byte list \<Rightarrow> nat \<Rightarrow> bool" where
  "first_beyond_file cls bs k \<longleftrightarrow>
     k < length (image_phdrs cls bs) \<and>
     (\<forall>j < k. unat (p_offset (image_phdrs cls bs ! j)) + unat (p_filesz (image_phdrs cls bs ! j))
               \<le> length bs) \<and>
     unat (p_offset (image_phdrs cls bs ! k)) + unat (p_filesz (image_phdrs cls bs ! k))
       < 2 ^ LENGTH('a) \<and>
     length bs <
       unat (p_offset (image_phdrs cls bs ! k)) + unat (p_filesz (image_phdrs cls bs ! k))"

definition first_past_end :: "'a::len word elf_class \<Rightarrow> byte list \<Rightarrow> nat \<Rightarrow> bool" where
  "first_past_end cls bs k \<longleftrightarrow>
     k < length (image_phdrs cls bs) \<and>
     (\<forall>j < k. unat (p_offset (image_phdrs cls bs ! j)) + unat (p_filesz (image_phdrs cls bs ! j))
               \<le> length bs) \<and>
     unat (p_offset (image_phdrs cls bs ! k) + p_filesz (image_phdrs cls bs ! k)) \<le> length bs \<and>
     length bs <
       unat (p_offset (image_phdrs cls bs ! k)) + unat (p_filesz (image_phdrs cls bs ! k))"

section \<open>Properties\<close>

subsection \<open>Evaluation of the loaders on concrete images\<close>

lemmas loader_eval =
  load_elf32_def load_elf64_def load_elf_def sd_card_def blank_def f_open_def emit_def
  next_outcome_def consume_outcome_def f_read_def f_size_def f_lseek_def
  ELF32_def ELF64_def Elf32_Ehdr_of_def Elf32_Phdr_of_def Elf64_Ehdr_of_def Elf64_Phdr_of_def
  field_def le_word_def ELFMAG0_def ELFMAG1_def ELFMAG2_def ELFMAG3_def
  table_entries_def load_segment_def copy_chunks.simps store_chunk_def CHUNK_SIZE_def
  Let_def
  elf32_image_def elf64_image_def

subsection \<open>Words\<close>

lemma low32_unat: "unat (ucast (ucast (w :: u64) :: u32) :: u64) = unat w mod 2 ^ 32"
  by (simp add: unsigned_ucast_eq unsigned_take_bit_eq take_bit_eq_mod unat_mod)

lemma low32_id: "(w :: u64) < 2 ^ 32 \<Longrightarrow> (ucast (ucast w :: u32) :: u64) = w"
  apply (rule word_unat_eq_iff[THEN iffD2])
  apply (simp add: low32_unat word_less_nat_alt)
  done

subsection \<open>The header of a loaded image\<close>

lemma load_elf_header:
  assumes "fst (load_elf cls pf file_name s) = Inr h"
  shows "\<exists>bs. files pf file_name = Some bs \<and> sizeof_Ehdr cls \<le> length bs
            \<and> h = Ehdr_of cls (take (sizeof_Ehdr cls) bs)"
  using assms
  apply (simp add: load_elf_def f_open_def Let_def split: if_splits option.splits prod.splits)
  apply (auto simp: f_read_def Let_def split: read_outcome.splits option.splits if_splits)
  done

text \<open>
  The line \<^verbatim>\<open>uint32_t entry_point = elfHeader.e_entry;\<close> is the same in both loaders. In
  \<^verbatim>\<open>load_elf32\<close> it is exact: the branch goes to \<^verbatim>\<open>e_entry\<close>, as the last action. In
  \<^verbatim>\<open>load_elf64\<close>, declared to return \<^verbatim>\<open>uint64_t\<close>, it keeps the low 32 bits of the
  \<^verbatim>\<open>e_entry\<close> field, which is \<^verbatim>\<open>e_entry\<close> itself only when that is below \<open>2^32\<close>.
\<close>

lemma entry_point_low_32_bits:
  "(fst (load_elf64 pf file_name s) = Inr entry_point \<longrightarrow>
      (\<exists>bs. files pf file_name = Some bs \<and>
         unat entry_point = unat (e_entry (Elf64_Ehdr_of (take 64 bs))) mod 2 ^ 32 \<and>
         (e_entry (Elf64_Ehdr_of (take 64 bs)) < 2 ^ 32 \<longrightarrow>
            entry_point = e_entry (Elf64_Ehdr_of (take 64 bs))))) \<and>
   (fst (load_elf32 pf' file_name' t) = Inr branched_to \<longrightarrow>
      (\<exists>bs. files pf' file_name' = Some bs \<and>
         branched_to = e_entry (Elf32_Ehdr_of (take 52 bs)) \<and>
         last (trace (snd (load_elf32 pf' file_name' t))) = Branch branched_to))"
proof (intro conjI impI)
  assume a: "fst (load_elf64 pf file_name s) = Inr entry_point"
  then obtain h where h: "fst (load_elf ELF64 pf file_name s) = Inr h"
    and e: "entry_point = ucast (ucast (e_entry h) :: u32)"
    by (auto simp: load_elf64_def Let_def split: prod.splits sum.splits)
  from load_elf_header[OF h] obtain bs where bs: "files pf file_name = Some bs"
    and hh: "h = Elf64_Ehdr_of (take 64 bs)"
    by (auto simp: ELF64_def)
  show "\<exists>bs. files pf file_name = Some bs \<and>
         unat entry_point = unat (e_entry (Elf64_Ehdr_of (take 64 bs))) mod 2 ^ 32 \<and>
         (e_entry (Elf64_Ehdr_of (take 64 bs)) < 2 ^ 32 \<longrightarrow>
            entry_point = e_entry (Elf64_Ehdr_of (take 64 bs)))"
    using bs hh e low32_unat[of "e_entry h"] low32_id[of "e_entry h"] by auto
next
  assume a: "fst (load_elf32 pf' file_name' t) = Inr branched_to"
  then obtain h where h: "fst (load_elf ELF32 pf' file_name' t) = Inr h"
    and e: "branched_to = e_entry h"
    and l: "last (trace (snd (load_elf32 pf' file_name' t))) = Branch branched_to"
    by (auto simp: load_elf32_def Let_def emit_def split: prod.splits sum.splits)
  from load_elf_header[OF h] obtain bs where bs: "files pf' file_name' = Some bs"
    and hh: "h = Elf32_Ehdr_of (take 52 bs)"
    by (auto simp: ELF32_def)
  show "\<exists>bs. files pf' file_name' = Some bs \<and>
         branched_to = e_entry (Elf32_Ehdr_of (take 52 bs)) \<and>
         last (trace (snd (load_elf32 pf' file_name' t))) = Branch branched_to"
    using bs hh e l by auto
qed

text \<open>
  C7 fails on the code. The image \<open>img64_high_entry\<close> has \<^verbatim>\<open>e_entry = 0x100000000\<close>; it
  loads, and \<^verbatim>\<open>load_elf64\<close> returns 0, not the entry field of the header.
\<close>

theorem entry_above_32_bits_is_truncated:
  "fst (load_elf64 (sd_card [(''bl31.elf'', img64_high_entry)]) ''bl31.elf'' blank) = Inr 0
   \<and> e_entry (Elf64_Ehdr_of (take 64 img64_high_entry)) = 0x100000000"
  by (simp add: loader_eval img64_high_entry_def)

text \<open>
  C10. \<^verbatim>\<open>mock_fsbl_SetATFHandoffParams\<close> publishes the address of its local structure,
  in which \<^verbatim>\<open>NumEntries\<close> is \<^verbatim>\<open>EntryCount + 1\<close>; the four bytes of \<^verbatim>\<open>MagicValue\<close> are
  "XLNX" when \<^verbatim>\<open>EntryCount\<close> is zero, and for every other \<^verbatim>\<open>EntryCount\<close> they are what the
  stack held before the call.
\<close>

theorem handoff_magic_only_for_first_entry:
  "trace (mock_fsbl_SetATFHandoffParams fr EntryCount PartitionHeader Flags s) =
     trace s @
       [LocalStruct (frame_addr fr)
          (ATFHandoffParams_filled (frame_content fr) EntryCount PartitionHeader Flags),
        RegWrite GLOBAL_GEN_STORAGE6 (ucast (frame_addr fr))]
   \<and> NumEntries (ATFHandoffParams_filled (frame_content fr) EntryCount PartitionHeader Flags) =
       EntryCount + 1
   \<and> (EntryCount \<noteq> 0 \<longrightarrow>
        MagicValue (ATFHandoffParams_filled (frame_content fr) EntryCount PartitionHeader Flags) =
          MagicValue (frame_content fr))
   \<and> (EntryCount = 0 \<and> length (MagicValue (frame_content fr)) = 4 \<longrightarrow>
        MagicValue (ATFHandoffParams_filled (frame_content fr) EntryCount PartitionHeader Flags) =
          [0x58, 0x4C, 0x4E, 0x58])"
  apply (simp add: mock_fsbl_SetATFHandoffParams_def emit_def ATFHandoffParams_filled_def Let_def)
  apply (auto simp: list_eq_iff_nth_eq nth_list_update less_Suc_eq numeral_eq_Suc)
  done

theorem handoff_magic_only_for_first_entry_witness:
  "((3::u32) \<noteq> 0
     \<and> MagicValue (ATFHandoffParams_filled (frame_content stack_frame) 3 0xFFFEA000 0) =
         [1, 2, 3, 4]
     \<and> NumEntries (ATFHandoffParams_filled (frame_content stack_frame) 3 0xFFFEA000 0) = 4)
   \<and> ((0::u32) = 0 \<and> length (MagicValue (frame_content stack_frame)) = 4
     \<and> MagicValue (ATFHandoffParams_filled (frame_content stack_frame) 0 0xFFFEA000 0) =
         [0x58, 0x4C, 0x4E, 0x58]
     \<and> NumEntries (ATFHandoffParams_filled (frame_content stack_frame) 0 0xFFFEA000 0) = 1)"
  using handoff_magic_only_for_first_entry [of stack_frame 3 "0xFFFEA000" 0 "blank"]
        handoff_magic_only_for_first_entry [of stack_frame 0 "0xFFFEA000" 0 "blank"]
  by (simp add: stack_frame_def)

subsection \<open>The chunk loop, one iteration at a time\<close>

lemma copy_chunks_done: "copy_chunks fp seg 0 bl s = (Some bl, fp, s)"
  by (simp add: copy_chunks.simps)

lemma copy_chunks_fail:
  assumes "btr > 0"
    and "f_read fp (if btr > CHUNK_SIZE then CHUNK_SIZE else btr) (next_outcome s) =
           (fr, buffer, fp')"
    and "fr \<noteq> FR_OK \<or> buffer = []"
  shows "copy_chunks fp seg btr bl s = (None, fp', emit [Freed, Closed] (consume_outcome s))"
  using assms by (simp add: copy_chunks.simps[of fp seg btr bl s] Let_def)

lemma copy_chunks_step:
  assumes "btr > 0"
    and "f_read fp (if btr > CHUNK_SIZE then CHUNK_SIZE else btr) (next_outcome s) =
           (FR_OK, buffer, fp')"
    and "buffer \<noteq> []"
  shows "copy_chunks fp seg btr bl s =
           copy_chunks fp' seg (btr - length buffer) (bl + length buffer)
             (store_chunk seg bl buffer (consume_outcome s))"
  using assms by (simp add: copy_chunks.simps[of fp seg btr bl s] Let_def)

lemma store_chunk_trace:
  "trace (store_chunk seg bl buffer s) =
     trace s @ [Memcpy (seg + of_nat bl) buffer,
                Flush (ucast (ucast (seg + of_nat bl) :: u32)) (length buffer)]"
  by (simp add: store_chunk_def emit_def)

lemma memset_numeral:
  "memset m dst c (numeral k) = memset (m(dst := c)) (dst + 1) c (pred_numeral k)"
  by (simp add: memset_def numeral_eq_Suc)

lemma memset_0: "memset m dst c 0 = m"
  by (simp add: memset_def)

lemma memset_Suc: "memset m dst c (Suc n) = memset (m(dst := c)) (dst + 1) c n"
  by (simp add: memset_def)

lemmas memset_eval = memset_0 memset_Suc memset_numeral

subsection \<open>The events of a load\<close>

lemma resources_after_append:
  "resources_after st (es @ fs) =
     (case resources_after st es of None \<Rightarrow> None | Some st' \<Rightarrow> resources_after st' fs)"
  by (induction es arbitrary: st) (auto split: option.splits)

lemma copy_chunks_events:
  "copy_chunks fp seg btr bl s = (r, fp', s') \<Longrightarrow>
     \<exists>es. trace s' = trace s @ es \<and> (\<forall>e \<in> set es. loader_event e) \<and>
          resources_after (True, True) es =
            Some (if r = None then (False, False) else (True, True))"
proof (induction btr arbitrary: fp bl s rule: less_induct)
  case (less btr)
  show ?case
  proof (cases "btr > 0")
    case False
    with less.prems show ?thesis by (auto simp: copy_chunks_done)
  next
    case True
    obtain fr buffer fp1 where rd:
      "f_read fp (if btr > CHUNK_SIZE then CHUNK_SIZE else btr) (next_outcome s) =
         (fr, buffer, fp1)"
      by (metis prod_cases3)
    show ?thesis
    proof (cases "fr \<noteq> FR_OK \<or> buffer = []")
      case fail: True
      from copy_chunks_fail[OF True rd fail] less.prems
      have "s' = emit [Freed, Closed] (consume_outcome s)" "r = None" by simp_all
      then show ?thesis by (simp add: emit_def consume_outcome_def)
    next
      case ok: False
      then have fr: "fr = FR_OK" and ne: "buffer \<noteq> []" by auto
      from copy_chunks_step[OF True rd[unfolded fr] ne] less.prems
      have rec: "copy_chunks fp1 seg (btr - length buffer) (bl + length buffer)
                   (store_chunk seg bl buffer (consume_outcome s)) = (r, fp', s')" by simp
      have "btr - length buffer < btr" using True ne by simp
      from less.IH[OF this rec]
      obtain es where es: "trace s' = trace (store_chunk seg bl buffer (consume_outcome s)) @ es"
          "\<forall>e \<in> set es. loader_event e"
          "resources_after (True, True) es =
             Some (if r = None then (False, False) else (True, True))"
        by blast
      then show ?thesis
        by (simp add: store_chunk_trace consume_outcome_def resources_after_append)
    qed
  qed
qed

lemma load_segment_events:
  "load_segment fp ph s = (r, fp', s') \<Longrightarrow>
     \<exists>es. trace s' = trace s @ es \<and> (\<forall>e \<in> set es. loader_event e) \<and>
          resources_after (True, True) es =
            Some (if r = None then (True, True) else (False, False))"
  apply (simp add: load_segment_def Let_def split: if_splits prod.splits option.splits)
    apply (auto simp: emit_def dest!: copy_chunks_events simp: resources_after_append)
  done

lemma load_segments_events:
  "load_segments fp phs s = (r, fp', s') \<Longrightarrow>
     \<exists>es. trace s' = trace s @ es \<and> (\<forall>e \<in> set es. loader_event e) \<and>
          resources_after (True, True) es =
            Some (if r = None then (True, True) else (False, False))"
proof (induction phs arbitrary: fp s)
  case Nil
  then show ?case by simp
next
  case (Cons ph phs)
  obtain r1 fp1 s1 where l1: "load_segment fp ph s = (r1, fp1, s1)" by (metis prod_cases3)
  from load_segment_events[OF l1] obtain es1 where es1: "trace s1 = trace s @ es1"
     "\<forall>e \<in> set es1. loader_event e"
     "resources_after (True, True) es1 = Some (if r1 = None then (True, True) else (False, False))"
    by blast
  show ?case
  proof (cases r1)
    case None
    with Cons.prems l1 have "load_segments fp1 phs s1 = (r, fp', s')" by simp
    from Cons.IH[OF this] obtain es2 where "trace s' = trace s1 @ es2"
     "\<forall>e \<in> set es2. loader_event e"
     "resources_after (True, True) es2 = Some (if r = None then (True, True) else (False, False))"
      by blast
    with es1 None show ?thesis
      by (auto simp: resources_after_append intro!: exI[of _ "es1 @ es2"])
  next
    case (Some err)
    with Cons.prems l1 have "r = Some err" "s' = s1" by simp_all
    with es1 Some show ?thesis by auto
  qed
qed

lemma load_elf_events:
  "load_elf cls pf file_name s = (r, s') \<Longrightarrow>
     \<exists>es. trace s' = trace s @ es \<and> (\<forall>e \<in> set es. loader_event e) \<and>
          resources_after (False, False) es = Some (False, False)"
  apply (simp add: load_elf_def Let_def split: if_splits option.splits prod.splits)
          apply (auto simp: emit_def consume_outcome_def resources_after_append
                      dest!: load_segments_events)
  done

text \<open>
  C9. Whatever the platform, the file and the state of the machine, and whatever the
  result, the events of \<^verbatim>\<open>load_elf32\<close> and of \<^verbatim>\<open>load_elf64\<close> take the resources from
  "no file open, no table allocated" back to the same: every file opened is closed, the
  table is freed if it was allocated, and nothing is closed or freed twice.
\<close>

theorem load_releases_file_and_table:
  "resources_after (False, False) (events_since s (snd (load_elf32 pf file_name s))) =
     Some (False, False) \<and>
   resources_after (False, False) (events_since t (snd (load_elf64 pf' file_name' t))) =
     Some (False, False)"
proof
  obtain r s' where l: "load_elf ELF32 pf file_name s = (r, s')" by (metis surj_pair)
  from load_elf_events[OF l] obtain es where es: "trace s' = trace s @ es"
    "resources_after (False, False) es = Some (False, False)" by blast
  show "resources_after (False, False) (events_since s (snd (load_elf32 pf file_name s))) =
     Some (False, False)"
    using l es
    by (cases r)
       (simp_all add: load_elf32_def events_since_def emit_def Let_def resources_after_append)
next
  obtain r s' where l: "load_elf ELF64 pf' file_name' t = (r, s')" by (metis surj_pair)
  from load_elf_events[OF l] obtain es where es: "trace s' = trace t @ es"
    "resources_after (False, False) es = Some (False, False)" by blast
  show "resources_after (False, False) (events_since t (snd (load_elf64 pf' file_name' t))) =
     Some (False, False)"
    using l es
    by (cases r) (simp_all add: load_elf64_def events_since_def emit_def Let_def)
qed

text \<open>
  In \<^verbatim>\<open>load_elf64\<close> the address given to \<^verbatim>\<open>Xil_DCacheFlushRange\<close> is cut to 32 bits: a
  chunk written at \<open>0x100000000\<close> is followed by a flush at address 0.
\<close>

lemma flush_address_truncated:
  "trace (store_chunk (0x100000000 :: u64) 0 [1] blank) =
     [Memcpy 0x100000000 [1], Flush 0 1]"
  by (simp add: store_chunk_trace blank_def)

text \<open>
  C5 fails on the code. For \<open>img32_bss\<close> (\<^verbatim>\<open>p_filesz = 0\<close>, \<^verbatim>\<open>p_memsz = 4\<close>) the loader
  writes four zero bytes at \<open>0x1000\<close> with \<^verbatim>\<open>memset\<close>; no \<^verbatim>\<open>Xil_DCacheFlushRange\<close>
  follows, up to the branch into the loaded program.
\<close>

theorem zero_fill_not_flushed:
  "trace (snd (load_elf32 (sd_card [(''vxWorks.elf'', img32_bss)]) ''vxWorks.elf'' blank)) =
     [Opened, Allocated 32, Memset 0x1000 4, Freed, Closed, Branch 0x1000]"
  by (simp add: loader_eval img32_bss_def)

text \<open>
  The bounds check does what it is there for as long as the sum does not wrap around: an
  extent beyond the end of the file ends the load before anything is read or copied.
\<close>

lemma extent_beyond_file_rejected:
  fixes ph :: "'a::len word Elf_Phdr"
  assumes "unat (p_offset ph) + unat (p_filesz ph) < 2 ^ LENGTH('a)"
    and "f_size fp < unat (p_offset ph) + unat (p_filesz ph)"
  shows "load_segment fp ph s = (Some SegmentOutOfBounds, fp, emit [Freed, Closed] s)"
proof -
  from assms(1) have "unat (p_offset ph + p_filesz ph) = unat (p_offset ph) + unat (p_filesz ph)"
    by (simp add: unat_add_lem)
  with assms(2) show ?thesis by (simp add: load_segment_def)
qed

text \<open>
  C3 fails on the code. In \<open>img32_wrap\<close> the extent \<^verbatim>\<open>p_offset + p_filesz\<close> is
  \<open>84 + 0xFFFFFFFF\<close>, far beyond the 88 bytes of the file, but the 32-bit sum is 83: the
  check passes, the four bytes up to the end of the file are copied to \<open>0x1000\<close>, and the
  load fails at the next read with the message of \<open>ShortSegmentRead\<close>.
\<close>

theorem wrapped_extent_is_copied:
  "unat (p_offset (Elf32_Phdr_of (take 32 (drop 52 img32_wrap)))) +
     unat (p_filesz (Elf32_Phdr_of (take 32 (drop 52 img32_wrap)))) = 4294967379 \<and>
   length img32_wrap = 88 \<and>
   fst (load_elf32 (sd_card [(''vxWorks.elf'', img32_wrap)]) ''vxWorks.elf'' blank) =
     Inl ShortSegmentRead \<and>
   trace (snd (load_elf32 (sd_card [(''vxWorks.elf'', img32_wrap)]) ''vxWorks.elf'' blank)) =
     [Opened, Allocated 32, Memcpy 0x1000 [0xAA, 0xBB, 0xCC, 0xDD], Flush 0x1000 4, Freed, Closed]"
  by (simp add: loader_eval img32_wrap_def)

subsection \<open>The events of \<^verbatim>\<open>main\<close> and the gates of a load\<close>

lemma load_elf64_events:
  "\<exists>es. trace (snd (load_elf64 pf file_name s)) = trace s @ es \<and> (\<forall>e \<in> set es. loader_event e)"
proof -
  obtain r s' where l: "load_elf ELF64 pf file_name s = (r, s')" by (metis surj_pair)
  from load_elf_events[OF l] l show ?thesis
    by (cases r) (auto simp: load_elf64_def Let_def)
qed


lemma main_apu_events:
  "\<exists>es. (\<forall>e \<in> set es. loader_event e) \<and>
     trace (main_apu pf fr s) =
       trace s @ Delay 3000 # es @
       [LocalStruct (frame_addr fr)
          (ATFHandoffParams_filled (frame_content fr) 0
             (ucast (load_elf64_return (fst (load_elf64 pf ''bl31.elf'' (delay_ms 3000 s))))) 0),
        RegWrite GLOBAL_GEN_STORAGE6 (ucast (frame_addr fr)),
        RegWrite RST_FPD_APU RST_FPD_APU_VALU,
        RegRead RVBARADDR0H, RegRead RVBARADDR1H, RegRead RVBARADDR2H, RegRead RVBARADDR3H,
        RegWrite RVBARADDR0L RVBARADDR_LOW_VALU,
        RegWrite RVBARADDR1L RVBARADDR_LOW_VALU,
        RegWrite RVBARADDR2L RVBARADDR_LOW_VALU,
        RegWrite RVBARADDR3L RVBARADDR_LOW_VALU,
        RegWrite RVBARADDR0H (ucast (load_elf64_return (fst (load_elf64 pf ''bl31.elf'' (delay_ms 3000 s))))),
        RegWrite RVBARADDR1H (ucast (load_elf64_return (fst (load_elf64 pf ''bl31.elf'' (delay_ms 3000 s))))),
        RegWrite RVBARADDR2H (ucast (load_elf64_return (fst (load_elf64 pf ''bl31.elf'' (delay_ms 3000 s))))),
        RegWrite RVBARADDR3H (ucast (load_elf64_return (fst (load_elf64 pf ''bl31.elf'' (delay_ms 3000 s))))),
        RegRead RVBARADDR0H, RegRead RVBARADDR1H, RegRead RVBARADDR2H, RegRead RVBARADDR3H,
        RegWrite RST_FPD_APU RST_FPD_APU_CLER]"
proof -
  define s1 where "s1 = delay_ms 3000 s"
  define l1 where "l1 = load_elf64 pf ''bl31.elf'' s1"
  define l2 where "l2 = load_elf64 pf ''u-boot.elf'' (snd l1)"
  from load_elf64_events[of pf "''bl31.elf''" s1] obtain es1 where
    es1: "trace (snd l1) = trace s1 @ es1" "\<forall>e \<in> set es1. loader_event e"
    unfolding l1_def by blast
  from load_elf64_events[of pf "''u-boot.elf''" "snd l1"] obtain es2 where
    es2: "trace (snd l2) = trace (snd l1) @ es2" "\<forall>e \<in> set es2. loader_event e"
    unfolding l2_def by blast
  have t1: "trace s1 = trace s @ [Delay 3000]" by (simp add: s1_def delay_ms_def emit_def)
  have "\<forall>e \<in> set (es1 @ es2). loader_event e" using es1 es2 by auto
  moreover have "trace (main_apu pf fr s) = trace s @ Delay 3000 # (es1 @ es2) @
       [LocalStruct (frame_addr fr)
          (ATFHandoffParams_filled (frame_content fr) 0
             (ucast (load_elf64_return (fst l1))) 0),
        RegWrite GLOBAL_GEN_STORAGE6 (ucast (frame_addr fr)),
        RegWrite RST_FPD_APU RST_FPD_APU_VALU,
        RegRead RVBARADDR0H, RegRead RVBARADDR1H, RegRead RVBARADDR2H, RegRead RVBARADDR3H,
        RegWrite RVBARADDR0L RVBARADDR_LOW_VALU,
        RegWrite RVBARADDR1L RVBARADDR_LOW_VALU,
        RegWrite RVBARADDR2L RVBARADDR_LOW_VALU,
        RegWrite RVBARADDR3L RVBARADDR_LOW_VALU,
        RegWrite RVBARADDR0H (ucast (load_elf64_return (fst l1))),
        RegWrite RVBARADDR1H (ucast (load_elf64_return (fst l1))),
        RegWrite RVBARADDR2H (ucast (load_elf64_return (fst l1))),
        RegWrite RVBARADDR3H (ucast (load_elf64_return (fst l1))),
        RegRead RVBARADDR0H, RegRead RVBARADDR1H, RegRead RVBARADDR2H, RegRead RVBARADDR3H,
        RegWrite RST_FPD_APU RST_FPD_APU_CLER]"
    using es1(1) es2(1) t1
    by (simp add: main_apu_def Let_def l1_def[symmetric] s1_def[symmetric] l2_def[symmetric]
          mock_fsbl_SetATFHandoffParams_def reset_apu_cores_def print_rvbar_def set_apu_rvba_def emit_def)
  ultimately show ?thesis unfolding l1_def s1_def by blast
qed


lemma split_after_prefix:
  assumes "x \<notin> set A" and "A @ H = pre @ x # post"
  shows "\<exists>pre'. pre = A @ pre' \<and> H = pre' @ x # post"
proof -
  from assms(2) obtain us where
    "(A = pre @ us \<and> us @ H = x # post) \<or> (A @ us = pre \<and> H = us @ x # post)"
    by (auto simp: append_eq_append_conv2)
  then show ?thesis
  proof
    assume a: "A = pre @ us \<and> us @ H = x # post"
    show ?thesis
    proof (cases us)
      case Nil
      with a show ?thesis by auto
    next
      case (Cons u us')
      with a have "x \<in> set A" by auto
      with assms(1) show ?thesis by simp
    qed
  next
    assume "A @ us = pre \<and> H = us @ x # post"
    then show ?thesis by auto
  qed
qed

lemma cores_held_append:
  "cores_held held (es @ fs) = cores_held (cores_held held es) fs"
  by (induction held es rule: cores_held.induct) simp_all

lemma cores_held_no_write:
  "\<forall>r v. RegWrite r v \<notin> set es \<Longrightarrow> cores_held held es = held"
  by (induction held es rule: cores_held.induct) auto

lemma loader_event_not_RegWrite: "\<forall>e \<in> set es. loader_event e \<Longrightarrow> RegWrite r v \<notin> set es"
  by auto

lemmas register_defs =
  GLOBAL_GEN_STORAGE6_def RVBARADDR0L_def RVBARADDR0H_def RVBARADDR1L_def RVBARADDR1H_def
  RVBARADDR2L_def RVBARADDR2H_def RVBARADDR3L_def RVBARADDR3H_def RST_FPD_APU_def
  RST_FPD_APU_VALU_def RST_FPD_APU_CLER_def RVBARADDR_LOW_VALU_def RVBAR_registers_def




lemmas main_eval =
  main_apu_def delay_ms_def mock_fsbl_SetATFHandoffParams_def reset_apu_cores_def print_rvbar_def
  set_apu_rvba_def load_elf64_return_def stack_frame_def ATFHandoffParams_filled_def MAX_ENTRIES_def
  events_since_def





lemma load_img64_ok:
  assumes "pending s = []" and "mount_ok pf" and "files pf file_name = Some img64_ok"
    and "malloc_ok pf 56"
  shows "load_elf64 pf file_name s =
           (Inr 0xFFFEA000,
            s\<lparr>mem := memset (memcpy (mem s) 0x2000 [0x11, 0x22, 0x33]) 0x2003 0 2,
              trace := trace s @ [Opened, Allocated 56, Memcpy 0x2000 [0x11, 0x22, 0x33],
                                  Flush 0x2000 3, Memset 0x2003 2, Freed, Closed],
              pending := []\<rparr>)"
  using assms
  by (simp add: load_elf64_def load_elf_def f_open_def emit_def
  next_outcome_def consume_outcome_def f_read_def f_size_def f_lseek_def
  ELF64_def Elf64_Ehdr_of_def Elf64_Phdr_of_def
  field_def le_word_def ELFMAG0_def ELFMAG1_def ELFMAG2_def ELFMAG3_def
  table_entries_def load_segment_def copy_chunks.simps store_chunk_def CHUNK_SIZE_def
  memset_eval Let_def elf64_image_def img64_ok_def)

lemma main_apu_two_images:
  "events_since blank (main_apu (sd_card [(''bl31.elf'', img64_ok), (''u-boot.elf'', img64_ok)]) stack_frame blank) =
     [Delay 3000,
      Opened, Allocated 56, Memcpy 0x2000 [0x11, 0x22, 0x33], Flush 0x2000 3, Memset 0x2003 2, Freed, Closed,
      Opened, Allocated 56, Memcpy 0x2000 [0x11, 0x22, 0x33], Flush 0x2000 3, Memset 0x2003 2, Freed, Closed,
      LocalStruct 0xFFFE0000
        \<lparr>MagicValue = [0x58, 0x4C, 0x4E, 0x58], NumEntries = 1,
         Entry = (replicate 10 \<lparr>EntryPoint = 9, PartitionFlags = 9\<rparr>)
                   [0 := \<lparr>EntryPoint = 0xFFFEA000, PartitionFlags = 0\<rparr>]\<rparr>,
      RegWrite GLOBAL_GEN_STORAGE6 0xFFFE0000,
      RegWrite RST_FPD_APU RST_FPD_APU_VALU,
      RegRead RVBARADDR0H, RegRead RVBARADDR1H, RegRead RVBARADDR2H, RegRead RVBARADDR3H,
      RegWrite RVBARADDR0L 0, RegWrite RVBARADDR1L 0, RegWrite RVBARADDR2L 0, RegWrite RVBARADDR3L 0,
      RegWrite RVBARADDR0H 0xFFFEA000, RegWrite RVBARADDR1H 0xFFFEA000,
      RegWrite RVBARADDR2H 0xFFFEA000, RegWrite RVBARADDR3H 0xFFFEA000,
      RegRead RVBARADDR0H, RegRead RVBARADDR1H, RegRead RVBARADDR2H, RegRead RVBARADDR3H,
      RegWrite RST_FPD_APU RST_FPD_APU_CLER]"
  by (simp add: load_img64_ok main_eval sd_card_def blank_def emit_def RVBARADDR_LOW_VALU_def)





subsection \<open>Segment types\<close>

lemma load_segment_type:
  "load_segment fp (ph\<lparr>p_type := ty\<rparr>) s = load_segment fp ph s"
  by (simp add: load_segment_def Let_def split: prod.splits option.splits)

text \<open>
  The loop over the program headers never reads \<^verbatim>\<open>p_type\<close>: changing the types of the
  entries in any way changes nothing in what the loop does.
\<close>

lemma load_segments_type:
  "load_segments fp (map (\<lambda>ph. ph\<lparr>p_type := ty ph\<rparr>) phs) s = load_segments fp phs s"
  by (induction phs arbitrary: fp s) (simp_all add: load_segment_type split: prod.splits option.splits)

text \<open>
  C2 as stated fails: the only entry of \<open>img32_note\<close> has type \<^verbatim>\<open>PT_NOTE\<close>, and its three
  bytes are copied to \<open>0x1000\<close> and two more are zeroed.
\<close>

theorem non_load_entry_is_loaded_counterexample:
  "p_type (Elf32_Phdr_of (take 32 (drop 52 img32_note))) \<noteq> PT_LOAD \<and>
   trace (snd (load_elf32 (sd_card [(''vxWorks.elf'', img32_note)]) ''vxWorks.elf'' blank)) =
     [Opened, Allocated 32, Memcpy 0x1000 [0xAA, 0xBB, 0xCC], Flush 0x1000 3, Memset 0x1003 2,
      Freed, Closed, Branch 0x1000] \<and>
   mem (snd (load_elf32 (sd_card [(''vxWorks.elf'', img32_note)]) ''vxWorks.elf'' blank)) 0x1000
     = 0xAA \<and> mem (blank :: u32 machine) 0x1000 = 0xFF"
  by (simp add: loader_eval img32_note_def PT_LOAD_def memset_eval)

lemma upt_two: "[0..<2] = [0, Suc 0]"
  by (simp add: numeral_2_eq_2)

text \<open>
  C1 as stated fails. \<open>img32_oob\<close> has the ELF magic and its program-header table lies
  inside the file, and the load fails, because the extent of its entry does not. The
  table of \<open>img32_overlap\<close> lies inside the file as well and the load succeeds, but the
  destination of its first entry holds the bytes of the second: \<open>0xCC\<close> at \<open>0x1000\<close>,
  where the file has \<open>0xAA\<close> at the entry's offset 116.
\<close>

theorem valid_image_fails_counterexample:
  "take 4 img32_oob = [ELFMAG0, ELFMAG1, ELFMAG2, ELFMAG3] \<and>
   unat (e_phoff (Elf32_Ehdr_of (take 52 img32_oob))) +
     unat (e_phnum (Elf32_Ehdr_of (take 52 img32_oob))) * 32 \<le> length img32_oob \<and>
   fst (load_elf32 (sd_card [(''vxWorks.elf'', img32_oob)]) ''vxWorks.elf'' blank) =
     Inl SegmentOutOfBounds \<and>
   take 4 img32_overlap = [ELFMAG0, ELFMAG1, ELFMAG2, ELFMAG3] \<and>
   unat (e_phoff (Elf32_Ehdr_of (take 52 img32_overlap))) +
     unat (e_phnum (Elf32_Ehdr_of (take 52 img32_overlap))) * 32 \<le> length img32_overlap \<and>
   fst (load_elf32 (sd_card [(''vxWorks.elf'', img32_overlap)]) ''vxWorks.elf'' blank) =
     Inr 0x1000 \<and>
   p_type (Elf32_Phdr_of (take 32 (drop 52 img32_overlap))) = PT_LOAD \<and>
   p_vaddr (Elf32_Phdr_of (take 32 (drop 52 img32_overlap))) = 0x1000 \<and>
   p_offset (Elf32_Phdr_of (take 32 (drop 52 img32_overlap))) = 116 \<and>
   p_filesz (Elf32_Phdr_of (take 32 (drop 52 img32_overlap))) = 2 \<and>
   img32_overlap ! 116 = 0xAA \<and>
   mem (snd (load_elf32 (sd_card [(''vxWorks.elf'', img32_overlap)]) ''vxWorks.elf'' blank))
     0x1000 = 0xCC"
  by (simp add: loader_eval img32_oob_def img32_overlap_def PT_LOAD_def upt_two)

subsection \<open>Memory after a load\<close>

lemma memcpy_outside:
  "(\<forall>i < length bs. a \<noteq> dst + of_nat i) \<Longrightarrow> memcpy m dst bs a = m a"
proof (induction bs arbitrary: m dst)
  case Nil
  then show ?case by simp
next
  case (Cons b bs)
  have "\<forall>i < length bs. a \<noteq> dst + 1 + of_nat i"
  proof (intro allI impI)
    fix i assume "i < length bs"
    with Cons.prems have "a \<noteq> dst + of_nat (Suc i)" by auto
    then show "a \<noteq> dst + 1 + of_nat i" by (simp add: add.assoc)
  qed
  from Cons.IH[OF this] have "memcpy (m(dst := b)) (dst + 1) bs a = (m(dst := b)) a" .
  moreover from Cons.prems have "a \<noteq> dst" by force
  ultimately show ?case by simp
qed

lemma memcpy_inside:
  fixes dst :: "'a::len word"
  shows "i < length bs \<Longrightarrow> length bs \<le> 2 ^ LENGTH('a) \<Longrightarrow> memcpy m dst bs (dst + of_nat i) = bs ! i"
proof (induction bs arbitrary: m dst i)
  case Nil
  then show ?case by simp
next
  case (Cons b bs)
  show ?case
  proof (cases i)
    case 0
    have "\<forall>j < length bs. dst \<noteq> dst + 1 + of_nat j"
    proof (intro allI impI)
      fix j assume j: "j < length bs"
      with Cons.prems have "Suc j < 2 ^ LENGTH('a)" by simp
      then have "(of_nat (Suc j) :: 'a word) \<noteq> 0" by (intro of_nat_neq_0) simp_all
      then show "dst \<noteq> dst + 1 + of_nat j" by (simp add: add.assoc)
    qed
    from memcpy_outside[OF this] 0 show ?thesis by simp
  next
    case (Suc i')
    with Cons.prems have "i' < length bs" "length bs \<le> 2 ^ LENGTH('a)" by simp_all
    then have "memcpy (m(dst := b)) (dst + 1) bs (dst + 1 + of_nat i') = bs ! i'"
      by (rule Cons.IH)
    moreover have "dst + of_nat i = dst + 1 + of_nat i'"
      using Suc by (simp add: add.assoc)
    ultimately show ?thesis by (simp only: memcpy.simps nth_Cons_Suc Suc)
  qed
qed

lemma memcpy_append:
  "memcpy m dst (xs @ ys) = memcpy (memcpy m dst xs) (dst + of_nat (length xs)) ys"
  by (induction xs arbitrary: m dst) (simp_all add: add.assoc)


lemma memset_outside:
  "(\<forall>i < n. a \<noteq> dst + of_nat i) \<Longrightarrow> memset m dst c n a = m a"
  by (simp add: memset_def memcpy_outside)

lemma memset_inside:
  fixes dst :: "'a::len word"
  shows "i < n \<Longrightarrow> n \<le> 2 ^ LENGTH('a) \<Longrightarrow> memset m dst c n (dst + of_nat i) = c"
  by (simp add: memset_def memcpy_inside)

lemma word_offsets_distinct:
  fixes a :: "'a::len word"
  assumes "i < 2 ^ LENGTH('a)" "j < 2 ^ LENGTH('a)" "i \<noteq> j"
  shows "a + of_nat i \<noteq> a + of_nat j"
  using assms by (simp add: word_of_nat_eq_iff take_bit_nat_eq_self)

lemma segment_memory_outside:
  assumes "a \<notin> destination ph"
  shows "segment_memory bs ph m a = m a"
proof -
  have 1: "\<forall>i < length (take (unat (p_filesz ph)) (drop (unat (p_offset ph)) bs)).
             a \<noteq> p_vaddr ph + of_nat i"
    using assms by (auto simp: destination_def)
  have 2: "\<forall>i < unat (p_memsz ph - p_filesz ph).
             a \<noteq> p_vaddr ph + of_nat (unat (p_filesz ph)) + of_nat i"
    if "p_filesz ph < p_memsz ph"
  proof (intro allI impI)
    fix i assume i: "i < unat (p_memsz ph - p_filesz ph)"
    from that have "unat (p_memsz ph - p_filesz ph) = unat (p_memsz ph) - unat (p_filesz ph)"
      by (simp add: unat_sub word_less_nat_alt less_imp_le word_le_nat_alt)
    with i have "unat (p_filesz ph) + i < max (unat (p_filesz ph)) (unat (p_memsz ph))" by simp
    then have "p_vaddr ph + of_nat (unat (p_filesz ph) + i) \<in> destination ph"
      unfolding destination_def by (intro imageI) simp
    with assms have "a \<noteq> p_vaddr ph + of_nat (unat (p_filesz ph) + i)"
      by auto
    then show "a \<noteq> p_vaddr ph + of_nat (unat (p_filesz ph)) + of_nat i"
      by (simp add: add.assoc)
  qed
  show ?thesis
    using 1 2 by (simp add: segment_memory_def Let_def memcpy_outside memset_outside)
qed

lemma segment_memory_placed:
  fixes ph :: "'a::len word Elf_Phdr"
  assumes "unat (p_offset ph) + unat (p_filesz ph) \<le> length bs"
  shows "segment_placed bs ph (segment_memory bs ph m)"
proof -
  let ?src = "take (unat (p_filesz ph)) (drop (unat (p_offset ph)) bs)"
  let ?m1 = "memcpy m (p_vaddr ph) ?src"
  have len: "length ?src = unat (p_filesz ph)" using assms by simp
  have fz: "unat (p_filesz ph) < 2 ^ LENGTH('a)" by simp
  have copy: "?m1 (p_vaddr ph + of_nat i) = bs ! (unat (p_offset ph) + i)"
    if "i < unat (p_filesz ph)" for i
  proof -
    have "i < length ?src" using that len by simp
    moreover have "length ?src \<le> 2 ^ LENGTH('a)"
      unfolding len by (rule less_imp_le) (rule fz)
    ultimately have "?m1 (p_vaddr ph + of_nat i) = ?src ! i"
      by (rule memcpy_inside)
    also have "\<dots> = bs ! (unat (p_offset ph) + i)" using that assms by simp
    finally show ?thesis .
  qed
  show ?thesis
  proof (cases "p_filesz ph < p_memsz ph")
    case False
    then have "unat (p_memsz ph) \<le> unat (p_filesz ph)"
      by (simp add: word_less_nat_alt)
    with False copy show ?thesis
      by (auto simp: segment_placed_def segment_memory_def Let_def)
  next
    case True
    then have lt: "unat (p_filesz ph) < unat (p_memsz ph)" by (simp add: word_less_nat_alt)
    have sub: "unat (p_memsz ph - p_filesz ph) = unat (p_memsz ph) - unat (p_filesz ph)"
      using True by (simp add: unat_sub word_less_nat_alt less_imp_le word_le_nat_alt)
    have mz: "unat (p_memsz ph) < 2 ^ LENGTH('a)" by simp
    let ?m2 = "memset ?m1 (p_vaddr ph + of_nat (unat (p_filesz ph))) 0
                 (unat (p_memsz ph - p_filesz ph))"
    have sm: "segment_memory bs ph m = ?m2" using True by (simp add: segment_memory_def Let_def)
    have a: "?m2 (p_vaddr ph + of_nat i) = bs ! (unat (p_offset ph) + i)"
      if "i < unat (p_filesz ph)" for i
    proof -
      have "\<forall>j < unat (p_memsz ph - p_filesz ph).
              p_vaddr ph + of_nat i \<noteq> p_vaddr ph + of_nat (unat (p_filesz ph)) + of_nat j"
      proof (intro allI impI)
        fix j assume "j < unat (p_memsz ph - p_filesz ph)"
        with sub have j: "unat (p_filesz ph) + j < unat (p_memsz ph)" by simp
        have i2: "i < 2 ^ LENGTH('a)" using that fz by (rule less_trans)
        have j2: "unat (p_filesz ph) + j < 2 ^ LENGTH('a)" using j mz by (rule less_trans)
        have ne: "i \<noteq> unat (p_filesz ph) + j" using that by simp
        have "p_vaddr ph + of_nat i \<noteq> p_vaddr ph + of_nat (unat (p_filesz ph) + j)"
          by (rule word_offsets_distinct[OF i2 j2 ne])
        then show "p_vaddr ph + of_nat i \<noteq> p_vaddr ph + of_nat (unat (p_filesz ph)) + of_nat j"
          by (simp add: add.assoc)
      qed
      from memset_outside[OF this] copy[OF that] show ?thesis by simp
    qed
    have b: "?m2 (p_vaddr ph + of_nat i) = 0"
      if "unat (p_filesz ph) \<le> i" "i < unat (p_memsz ph)" for i
    proof -
      have "i - unat (p_filesz ph) < unat (p_memsz ph - p_filesz ph)" using that sub by simp
      moreover have "unat (p_memsz ph - p_filesz ph) \<le> 2 ^ LENGTH('a)"
        by (rule less_imp_le) simp
      ultimately have z: "?m2 (p_vaddr ph + of_nat (unat (p_filesz ph)) + of_nat (i - unat (p_filesz ph))) = 0"
        by (rule memset_inside)
      have e: "p_vaddr ph + of_nat (unat (p_filesz ph)) + of_nat (i - unat (p_filesz ph))
                      = p_vaddr ph + of_nat i"
        using that(1) by (simp add: add.assoc flip: of_nat_add)
      from z[unfolded e] show ?thesis .
    qed
    from a b sm show ?thesis by (simp add: segment_placed_def)
  qed
qed


lemma store_chunk_fields:
  "mem (store_chunk seg bl buffer s) = memcpy (mem s) (seg + of_nat bl) buffer"
  "pending (store_chunk seg bl buffer s) = pending s"
  by (simp_all add: store_chunk_def emit_def)

lemma copy_chunks_complete:
  assumes "pending s = []" and "fptr fp + btr \<le> length (fdata fp)"
  shows "\<exists>s'. copy_chunks fp seg btr bl s = (Some (bl + btr), fp\<lparr>fptr := fptr fp + btr\<rparr>, s') \<and>
              mem s' = memcpy (mem s) (seg + of_nat bl) (take btr (drop (fptr fp) (fdata fp))) \<and>
              pending s' = []"
  using assms
proof (induction btr arbitrary: fp bl s rule: less_induct)
  case (less btr)
  show ?case
  proof (cases "btr > 0")
    case False
    then show ?thesis using less.prems by (simp add: copy_chunks_done)
  next
    case True
    define chunk where "chunk = (if btr > CHUNK_SIZE then CHUNK_SIZE else btr)"
    define buffer where "buffer = take chunk (drop (fptr fp) (fdata fp))"
    define fp1 where "fp1 = fp\<lparr>fptr := fptr fp + chunk\<rparr>"
    define s1 where "s1 = store_chunk seg bl buffer (consume_outcome s)"
    have chunk: "0 < chunk" "chunk \<le> btr" using True by (auto simp: chunk_def CHUNK_SIZE_def)
    have len: "length buffer = chunk" using less.prems(2) chunk by (simp add: buffer_def)
    have rd: "f_read fp (if btr > CHUNK_SIZE then CHUNK_SIZE else btr) (next_outcome s) =
                (FR_OK, buffer, fp1)"
      using less.prems(1) len
      by (simp add: f_read_def next_outcome_def Let_def buffer_def fp1_def chunk_def)
    have ne: "buffer \<noteq> []" using len chunk by auto
    have step: "copy_chunks fp seg btr bl s =
                  copy_chunks fp1 seg (btr - chunk) (bl + chunk) s1"
      using copy_chunks_step[OF True rd ne] by (simp add: len s1_def)
    have p1: "pending s1 = []"
      using less.prems(1) by (simp add: s1_def store_chunk_fields consume_outcome_def)
    have b1: "fptr fp1 + (btr - chunk) \<le> length (fdata fp1)"
      using less.prems(2) chunk by (simp add: fp1_def)
    have "btr - chunk < btr" using chunk by simp
    from less.IH[OF this p1 b1, of "bl + chunk"] obtain s' where
      r: "copy_chunks fp1 seg (btr - chunk) (bl + chunk) s1 =
            (Some (bl + chunk + (btr - chunk)), fp1\<lparr>fptr := fptr fp1 + (btr - chunk)\<rparr>, s')"
      and m: "mem s' = memcpy (mem s1) (seg + of_nat (bl + chunk))
                         (take (btr - chunk) (drop (fptr fp1) (fdata fp1)))"
      and p: "pending s' = []"
      by blast
    have split: "take btr (drop (fptr fp) (fdata fp)) =
                   buffer @ take (btr - chunk) (drop (fptr fp1) (fdata fp1))"
    proof -
      have "take (chunk + (btr - chunk)) (drop (fptr fp) (fdata fp)) =
              take chunk (drop (fptr fp) (fdata fp)) @
              take (btr - chunk) (drop chunk (drop (fptr fp) (fdata fp)))"
        by (rule take_add)
      then show ?thesis using chunk by (simp add: buffer_def fp1_def add.commute)
    qed
    have "mem s' = memcpy (mem s) (seg + of_nat bl) (take btr (drop (fptr fp) (fdata fp)))"
      unfolding m split
      by (simp add: memcpy_append s1_def store_chunk_fields consume_outcome_def len add.assoc)
    moreover have "copy_chunks fp seg btr bl s = (Some (bl + btr), fp\<lparr>fptr := fptr fp + btr\<rparr>, s')"
      using step r chunk by (simp add: fp1_def)
    ultimately show ?thesis using p by blast
  qed
qed

text \<open>
  Reads that return fewer bytes than requested do no harm as long as each returns at least
  one: the loop reads on, and the segment is copied whole.
\<close>

lemma take_min_length: "take (min (length xs) k) xs = take k xs"
  by (cases "k \<le> length xs") (simp_all add: min_def)

lemma copy_chunks_positive_reads:
  assumes "\<forall>out \<in> set (pending s). out \<noteq> Failed \<and> out \<noteq> Partial 0"
    and "fptr fp + btr \<le> length (fdata fp)"
  shows "\<exists>s'. copy_chunks fp seg btr bl s = (Some (bl + btr), fp\<lparr>fptr := fptr fp + btr\<rparr>, s') \<and>
              mem s' = memcpy (mem s) (seg + of_nat bl) (take btr (drop (fptr fp) (fdata fp)))"
  using assms
proof (induction btr arbitrary: fp bl s rule: less_induct)
  case (less btr)
  show ?case
  proof (cases "btr > 0")
    case False
    then show ?thesis using less.prems by (simp add: copy_chunks_done)
  next
    case True
    define chunk where "chunk = (if btr > CHUNK_SIZE then CHUNK_SIZE else btr)"
    define avail where "avail = take chunk (drop (fptr fp) (fdata fp))"
    obtain fr buffer fp1 where rd:
      "f_read fp (if btr > CHUNK_SIZE then CHUNK_SIZE else btr) (next_outcome s) = (fr, buffer, fp1)"
      by (metis prod_cases3)
    have chunk: "0 < chunk" "chunk \<le> btr" using True by (auto simp: chunk_def CHUNK_SIZE_def)
    have la: "length avail = chunk" using less.prems(2) chunk by (simp add: avail_def)
    have out: "next_outcome s \<noteq> Failed" "next_outcome s \<noteq> Partial 0"
      using less.prems(1) by (auto simp: next_outcome_def split: list.splits)
    define n where "n = length buffer"
    have fr: "fr = FR_OK" and buf: "buffer = take n avail" and n: "0 < n" "n \<le> chunk"
      and fp1: "fp1 = fp\<lparr>fptr := fptr fp + n\<rparr>"
      using rd out la chunk
      by (auto simp: f_read_def Let_def avail_def[symmetric] chunk_def[symmetric] n_def
               take_min_length split: read_outcome.splits)
    have ne: "buffer \<noteq> []" using n by (auto simp: n_def)
    define s1 where "s1 = store_chunk seg bl buffer (consume_outcome s)"
    have step: "copy_chunks fp seg btr bl s = copy_chunks fp1 seg (btr - n) (bl + n) s1"
      using copy_chunks_step[OF True rd[unfolded fr] ne] by (simp add: n_def s1_def)
    have "set (tl (pending s)) \<subseteq> set (pending s)"
      by (cases "pending s") auto
    with less.prems(1)
    have p1: "\<forall>out \<in> set (pending s1). out \<noteq> Failed \<and> out \<noteq> Partial 0"
      by (auto simp: s1_def store_chunk_fields consume_outcome_def)
    have b1: "fptr fp1 + (btr - n) \<le> length (fdata fp1)"
      using less.prems(2) chunk n by (simp add: fp1)
    have "btr - n < btr" using n chunk by simp
    from less.IH[OF this p1 b1, of "bl + n"] obtain s' where
      r: "copy_chunks fp1 seg (btr - n) (bl + n) s1 =
            (Some (bl + n + (btr - n)), fp1\<lparr>fptr := fptr fp1 + (btr - n)\<rparr>, s')"
      and m: "mem s' = memcpy (mem s1) (seg + of_nat (bl + n))
                         (take (btr - n) (drop (fptr fp1) (fdata fp1)))"
      by blast
    have buf': "buffer = take n (drop (fptr fp) (fdata fp))"
      using buf n by (simp add: avail_def min_absorb2)
    have split: "take btr (drop (fptr fp) (fdata fp)) =
                   buffer @ take (btr - n) (drop (fptr fp1) (fdata fp1))"
    proof -
      have "take (n + (btr - n)) (drop (fptr fp) (fdata fp)) =
              take n (drop (fptr fp) (fdata fp)) @
              take (btr - n) (drop n (drop (fptr fp) (fdata fp)))"
        by (rule take_add)
      then show ?thesis using chunk n by (simp add: buf' fp1 add.commute)
    qed
    have "mem s' = memcpy (mem s) (seg + of_nat bl) (take btr (drop (fptr fp) (fdata fp)))"
      unfolding m split
      by (simp add: memcpy_append s1_def store_chunk_fields consume_outcome_def n_def add.assoc)
    moreover have "copy_chunks fp seg btr bl s = (Some (bl + btr), fp\<lparr>fptr := fptr fp + btr\<rparr>, s')"
      using step r chunk n by (simp add: fp1)
    ultimately show ?thesis by blast
  qed
qed

lemma load_segment_complete:
  fixes ph :: "'a::len word Elf_Phdr"
  assumes "pending s = []" and "unat (p_offset ph) + unat (p_filesz ph) \<le> length (fdata fp)"
  shows "\<exists>fp' s'. load_segment fp ph s = (None, fp', s') \<and> fdata fp' = fdata fp \<and>
                  mem s' = segment_memory (fdata fp) ph (mem s) \<and> pending s' = []"
proof -
  have "unat (p_offset ph + p_filesz ph) \<le> unat (p_offset ph) + unat (p_filesz ph)"
    by (simp add: unat_word_ariths)
  with assms(2) have chk: "\<not> f_size fp < unat (p_offset ph + p_filesz ph)"
    by (simp add: f_size_def)
  define fp1 where "fp1 = f_lseek fp (unat (p_offset ph))"
  have fp1: "fptr fp1 = unat (p_offset ph)" "fdata fp1 = fdata fp"
    using assms(2) by (simp_all add: fp1_def f_lseek_def f_size_def)
  have "fptr fp1 + unat (p_filesz ph) \<le> length (fdata fp1)" using assms(2) fp1 by simp
  from copy_chunks_complete[OF assms(1) this, of "p_vaddr ph" 0] obtain s1 where
    c: "copy_chunks fp1 (p_vaddr ph) (unat (p_filesz ph)) 0 s =
          (Some (unat (p_filesz ph)), fp1\<lparr>fptr := fptr fp1 + unat (p_filesz ph)\<rparr>, s1)"
    and m: "mem s1 = memcpy (mem s) (p_vaddr ph)
                       (take (unat (p_filesz ph)) (drop (unat (p_offset ph)) (fdata fp)))"
    and p: "pending s1 = []"
    by (auto simp: fp1)
  show ?thesis
    using chk c m p fp1
    by (simp add: load_segment_def Let_def fp1_def[symmetric] segment_memory_def emit_def)
qed

lemma load_segments_complete:
  fixes phs :: "'a::len word Elf_Phdr list"
  assumes "pending s = []"
    and "\<forall>ph \<in> set phs. unat (p_offset ph) + unat (p_filesz ph) \<le> length (fdata fp)"
  shows "\<exists>fp' s'. load_segments fp phs s = (None, fp', s') \<and>
                  mem s' = fold (segment_memory (fdata fp)) phs (mem s)"
  using assms
proof (induction phs arbitrary: fp s)
  case Nil
  then show ?case by simp
next
  case (Cons ph phs)
  from Cons.prems have "unat (p_offset ph) + unat (p_filesz ph) \<le> length (fdata fp)" by simp
  from load_segment_complete[OF Cons.prems(1) this] obtain fp1 s1 where
    l: "load_segment fp ph s = (None, fp1, s1)" and d: "fdata fp1 = fdata fp"
    and m: "mem s1 = segment_memory (fdata fp) ph (mem s)" and p: "pending s1 = []"
    by blast
  from Cons.prems d have
    "\<forall>ph \<in> set phs. unat (p_offset ph) + unat (p_filesz ph) \<le> length (fdata fp1)" by simp
  from Cons.IH[OF p this] obtain fp' s' where
    "load_segments fp1 phs s1 = (None, fp', s')"
    "mem s' = fold (segment_memory (fdata fp1)) phs (mem s1)"
    by blast
  with l d m show ?case by simp
qed

lemma segment_placed_preserved:
  assumes "segment_placed bs ph m" and "destination ph' \<inter> destination ph = {}"
  shows "segment_placed bs ph (segment_memory bs ph' m)"
proof -
  have "segment_memory bs ph' m (p_vaddr ph + of_nat i) = m (p_vaddr ph + of_nat i)"
    if "i < max (unat (p_filesz ph)) (unat (p_memsz ph))" for i
  proof -
    from that have "p_vaddr ph + of_nat i \<in> destination ph"
      unfolding destination_def by (intro imageI) simp
    with assms(2) have "p_vaddr ph + of_nat i \<notin> destination ph'" by auto
    then show ?thesis by (rule segment_memory_outside)
  qed
  with assms(1) show ?thesis
    by (auto simp: segment_placed_def)
qed

lemma segment_placed_fold:
  assumes "segment_placed bs ph m"
    and "\<forall>ph' \<in> set phs. destination ph' \<inter> destination ph = {}"
  shows "segment_placed bs ph (fold (segment_memory bs) phs m)"
  using assms
  by (induction phs arbitrary: m) (simp_all add: segment_placed_preserved)

lemma fold_segments_placed:
  fixes phs :: "'a::len word Elf_Phdr list"
  assumes "k < length phs"
    and "unat (p_offset (phs ! k)) + unat (p_filesz (phs ! k)) \<le> length bs"
    and "\<forall>j. k < j \<and> j < length phs \<longrightarrow> destination (phs ! j) \<inter> destination (phs ! k) = {}"
  shows "segment_placed bs (phs ! k) (fold (segment_memory bs) phs m)"
proof -
  have phs: "phs = take k phs @ phs ! k # drop (Suc k) phs"
    using assms(1) by (simp add: id_take_nth_drop)
  have later: "\<forall>ph' \<in> set (drop (Suc k) phs). destination ph' \<inter> destination (phs ! k) = {}"
  proof
    fix ph' assume "ph' \<in> set (drop (Suc k) phs)"
    then obtain i where "i < length (drop (Suc k) phs)" "ph' = drop (Suc k) phs ! i"
      by (auto simp: in_set_conv_nth)
    then have "Suc k + i < length phs" "ph' = phs ! (Suc k + i)" by simp_all
    with assms(3) show "destination ph' \<inter> destination (phs ! k) = {}" by simp
  qed
  have "fold (segment_memory bs) phs m =
          fold (segment_memory bs) (drop (Suc k) phs)
            (segment_memory bs (phs ! k) (fold (segment_memory bs) (take k phs) m))"
    by (subst phs) simp
  moreover have "segment_placed bs (phs ! k)
            (segment_memory bs (phs ! k) (fold (segment_memory bs) (take k phs) m))"
    by (rule segment_memory_placed[OF assms(2)])
  ultimately show ?thesis using segment_placed_fold[OF _ later] by simp
qed


lemma load_elf_complete:
  fixes cls :: "'a::len word elf_class"
  assumes "loads_from cls pf file_name bs s"
  shows "\<exists>s'. load_elf cls pf file_name s = (Inr (image_header cls bs), s') \<and>
              mem s' = fold (segment_memory bs) (image_phdrs cls bs) (mem s)"
proof -
  define h where "h = image_header cls bs"
  define n where "n = unat (e_phnum h)"
  from assms have mount: "mount_ok pf" and fl: "files pf file_name = Some bs"
    and malloc: "malloc_ok pf (n * sizeof_Phdr cls)" and pend: "pending s = []"
    and wf: "well_formed_image cls bs"
    by (simp_all add: loads_from_def h_def n_def)
  from wf have size: "sizeof_Ehdr cls \<le> length bs"
    and magic: "e_ident h ! 0 = ELFMAG0" "e_ident h ! 1 = ELFMAG1"
               "e_ident h ! 2 = ELFMAG2" "e_ident h ! 3 = ELFMAG3"
    and phoff: "unat (e_phoff h) < length bs"
    and table: "unat (e_phoff h) + n * sizeof_Phdr cls \<le> length bs"
    and extents: "\<forall>ph \<in> set (image_phdrs cls bs). unat (p_offset ph) + unat (p_filesz ph) \<le> length bs"
    by (simp_all add: well_formed_image_def h_def n_def)
  define file0 where "file0 = \<lparr>fdata = bs, fptr = 0\<rparr>"
  define s0 where "s0 = emit [Opened] s"
  define s1 where "s1 = consume_outcome s0"
  define file1 where "file1 = file0\<lparr>fptr := sizeof_Ehdr cls\<rparr>"
  have op: "f_open pf file_name = Some file0" using fl by (simp add: f_open_def file0_def)
  have rd1: "f_read file0 (sizeof_Ehdr cls) (next_outcome s0) =
               (FR_OK, take (sizeof_Ehdr cls) bs, file1)"
    using pend size
    by (simp add: f_read_def next_outcome_def s0_def emit_def file0_def file1_def Let_def)
  have hdr: "Ehdr_of cls (take (sizeof_Ehdr cls) bs) = h" by (simp add: h_def image_header_def)
  define s2 where "s2 = emit [Allocated (n * sizeof_Phdr cls)] s1"
  define file2 where "file2 = f_lseek file1 (unat (e_phoff h))"
  define s3 where "s3 = consume_outcome s2"
  define tbl where "tbl = take (n * sizeof_Phdr cls) (drop (unat (e_phoff h)) bs)"
  define file3 where "file3 = file2\<lparr>fptr := fptr file2 + n * sizeof_Phdr cls\<rparr>"
  have f2: "fptr file2 = unat (e_phoff h)" "fdata file2 = bs"
    using phoff by (simp_all add: file2_def f_lseek_def f_size_def file1_def file0_def)
  have p2: "pending s2 = []" "pending s3 = []" "mem s3 = mem s"
    using pend by (simp_all add: s3_def s2_def s1_def s0_def emit_def consume_outcome_def)
  have ltbl: "length tbl = n * sizeof_Phdr cls" using table by (simp add: tbl_def)
  have rd2: "f_read file2 (n * sizeof_Phdr cls) (next_outcome s2) = (FR_OK, tbl, file3)"
    using p2(1) f2 ltbl
    by (simp add: f_read_def next_outcome_def Let_def tbl_def file3_def)
  have phs: "table_entries cls n tbl = image_phdrs cls bs"
    by (simp add: image_phdrs_def tbl_def n_def h_def)
  have f3: "fdata file3 = bs" using f2 by (simp add: file3_def)
  from extents f3 have
    "\<forall>ph \<in> set (image_phdrs cls bs). unat (p_offset ph) + unat (p_filesz ph) \<le> length (fdata file3)"
    by simp
  from load_segments_complete[OF p2(2) this] obtain fp4 s4 where
    ls: "load_segments file3 (image_phdrs cls bs) s3 = (None, fp4, s4)"
    and m4: "mem s4 = fold (segment_memory bs) (image_phdrs cls bs) (mem s)"
    by (auto simp: f3 p2)
  have sz1: "f_size file1 = length bs" by (simp add: f_size_def file1_def file0_def)
  have "load_elf cls pf file_name s = (Inr h, emit [Freed, Closed] s4)"
    using mount op rd1 magic phoff malloc rd2 ltbl ls size
    by (simp add: load_elf_def Let_def s0_def[symmetric] s1_def[symmetric] hdr
          n_def[symmetric] s2_def[symmetric] file2_def[symmetric] s3_def[symmetric] phs sz1)
  moreover have "mem (emit [Freed, Closed] s4) = fold (segment_memory bs) (image_phdrs cls bs) (mem s)"
    using m4 by (simp add: emit_def)
  ultimately show ?thesis unfolding h_def by blast
qed

lemma load_elf_segments_placed:
  fixes cls :: "'a::len word elf_class"
  assumes "loads_from cls pf file_name bs s"
  shows "fst (load_elf cls pf file_name s) = Inr (image_header cls bs) \<and>
         segments_placed cls bs (mem (snd (load_elf cls pf file_name s)))"
proof -
  from load_elf_complete[OF assms] obtain s' where
    l: "load_elf cls pf file_name s = (Inr (image_header cls bs), s')"
    and m: "mem s' = fold (segment_memory bs) (image_phdrs cls bs) (mem s)"
    by blast
  from assms have extents:
    "\<forall>ph \<in> set (image_phdrs cls bs). unat (p_offset ph) + unat (p_filesz ph) \<le> length bs"
    by (simp add: loads_from_def well_formed_image_def)
  have "segments_placed cls bs (mem s')"
    unfolding segments_placed_def m
  proof (intro allI impI)
    fix k
    assume k: "k < length (image_phdrs cls bs)"
      and d: "\<forall>j. k < j \<and> j < length (image_phdrs cls bs) \<longrightarrow>
                destination (image_phdrs cls bs ! j) \<inter> destination (image_phdrs cls bs ! k) = {}"
    from k extents have "unat (p_offset (image_phdrs cls bs ! k)) +
        unat (p_filesz (image_phdrs cls bs ! k)) \<le> length bs"
      by simp
    from fold_segments_placed[OF k this d]
    show "segment_placed bs (image_phdrs cls bs ! k)
            (fold (segment_memory bs) (image_phdrs cls bs) (mem s))" .
  qed
  with l show ?thesis by simp
qed

text \<open>
  C1 (as amended). Let the file hold a whole header with the ELF magic and a
  program-header table that starts inside the file and lies inside it, let the extent
  \<open>p_offset + p_filesz\<close> of every entry, computed without wrap-around, lie inside the
  file, and let the card mount, the file open, the table be allocated and every read be
  complete. Then the load succeeds (\<^verbatim>\<open>load_elf32\<close> branches to \<^verbatim>\<open>e_entry\<close>, \<^verbatim>\<open>load_elf64\<close>
  returns its low 32 bits), and for every entry, of whatever type, whose destination no
  later entry writes to, memory holds the bytes of the file at
  \<open>[p_offset, p_offset + p_filesz)\<close> from \<open>p_vaddr\<close> on and zero from \<open>p_vaddr + p_filesz\<close>
  up to \<open>p_vaddr + p_memsz\<close>.
\<close>
theorem well_formed_image_is_loaded:
  "(loads_from ELF32 pf file_name bs s \<longrightarrow>
      fst (load_elf32 pf file_name s) = Inr (e_entry (image_header ELF32 bs)) \<and>
      segments_placed ELF32 bs (mem (snd (load_elf32 pf file_name s)))) \<and>
   (loads_from ELF64 pf' file_name' bs' t \<longrightarrow>
      fst (load_elf64 pf' file_name' t) =
        Inr (ucast (ucast (e_entry (image_header ELF64 bs')) :: u32)) \<and>
      segments_placed ELF64 bs' (mem (snd (load_elf64 pf' file_name' t))))"
proof (intro conjI impI)
  assume a: "loads_from ELF32 pf file_name bs s"
  from load_elf_segments_placed[OF a]
  show "fst (load_elf32 pf file_name s) = Inr (e_entry (image_header ELF32 bs))"
    and "segments_placed ELF32 bs (mem (snd (load_elf32 pf file_name s)))"
    by (auto simp: load_elf32_def Let_def emit_def split: prod.splits sum.splits)
next
  assume a: "loads_from ELF64 pf' file_name' bs' t"
  from load_elf_segments_placed[OF a]
  show "fst (load_elf64 pf' file_name' t) =
        Inr (ucast (ucast (e_entry (image_header ELF64 bs')) :: u32))"
    and "segments_placed ELF64 bs' (mem (snd (load_elf64 pf' file_name' t)))"
    by (auto simp: load_elf64_def Let_def split: prod.splits sum.splits)
qed


lemmas image_eval = loads_from_def well_formed_image_def image_header_def image_phdrs_def

theorem well_formed_image_is_loaded_witness:
  "loads_from ELF32 (sd_card [(''vxWorks.elf'', img32_ok)]) ''vxWorks.elf'' img32_ok blank \<and>
   fst (load_elf32 (sd_card [(''vxWorks.elf'', img32_ok)]) ''vxWorks.elf'' blank) = Inr 0x1000 \<and>
   segments_placed ELF32 img32_ok
     (mem (snd (load_elf32 (sd_card [(''vxWorks.elf'', img32_ok)]) ''vxWorks.elf'' blank))) \<and>
   map (mem (snd (load_elf32 (sd_card [(''vxWorks.elf'', img32_ok)]) ''vxWorks.elf'' blank)))
     [0x0FFF, 0x1000, 0x1001, 0x1002, 0x1003, 0x1004, 0x1005] =
     [0xFF, 0xAA, 0xBB, 0xCC, 0, 0, 0xFF] \<and>
   loads_from ELF64 (sd_card [(''bl31.elf'', img64_ok)]) ''bl31.elf'' img64_ok blank \<and>
   fst (load_elf64 (sd_card [(''bl31.elf'', img64_ok)]) ''bl31.elf'' blank) = Inr 0xFFFEA000 \<and>
   segments_placed ELF64 img64_ok
     (mem (snd (load_elf64 (sd_card [(''bl31.elf'', img64_ok)]) ''bl31.elf'' blank))) \<and>
   map (mem (snd (load_elf64 (sd_card [(''bl31.elf'', img64_ok)]) ''bl31.elf'' blank)))
     [0x1FFF, 0x2000, 0x2001, 0x2002, 0x2003, 0x2004, 0x2005] =
     [0xFF, 0x11, 0x22, 0x33, 0, 0, 0xFF]"
proof -
  have h32: "loads_from ELF32 (sd_card [(''vxWorks.elf'', img32_ok)]) ''vxWorks.elf'' img32_ok blank"
    by (simp add: image_eval loader_eval img32_ok_def)
  have h64: "loads_from ELF64 (sd_card [(''bl31.elf'', img64_ok)]) ''bl31.elf'' img64_ok blank"
    by (simp add: image_eval loader_eval img64_ok_def)
  have e32: "e_entry (image_header ELF32 img32_ok) = 0x1000"
    by (simp add: image_eval loader_eval img32_ok_def)
  have e64: "(ucast (ucast (e_entry (image_header ELF64 img64_ok)) :: u32) :: u64) = 0xFFFEA000"
    by (simp add: image_eval loader_eval img64_ok_def)
  note inst = well_formed_image_is_loaded
    [of "sd_card [(''vxWorks.elf'', img32_ok)]" "''vxWorks.elf''" img32_ok blank
        "sd_card [(''bl31.elf'', img64_ok)]" "''bl31.elf''" img64_ok blank]
  from inst h32 e32 have c32:
    "fst (load_elf32 (sd_card [(''vxWorks.elf'', img32_ok)]) ''vxWorks.elf'' blank) = Inr 0x1000"
    "segments_placed ELF32 img32_ok
     (mem (snd (load_elf32 (sd_card [(''vxWorks.elf'', img32_ok)]) ''vxWorks.elf'' blank)))"
    by simp_all
  from inst h64 e64 have c64:
    "fst (load_elf64 (sd_card [(''bl31.elf'', img64_ok)]) ''bl31.elf'' blank) = Inr 0xFFFEA000"
    "segments_placed ELF64 img64_ok
     (mem (snd (load_elf64 (sd_card [(''bl31.elf'', img64_ok)]) ''bl31.elf'' blank)))"
    by simp_all
  have m32: "map (mem (snd (load_elf32 (sd_card [(''vxWorks.elf'', img32_ok)]) ''vxWorks.elf'' blank)))
     [0x0FFF, 0x1000, 0x1001, 0x1002, 0x1003, 0x1004, 0x1005] =
     [0xFF, 0xAA, 0xBB, 0xCC, 0, 0, 0xFF]"
    by (simp add: loader_eval img32_ok_def memset_eval)
  have m64: "map (mem (snd (load_elf64 (sd_card [(''bl31.elf'', img64_ok)]) ''bl31.elf'' blank)))
     [0x1FFF, 0x2000, 0x2001, 0x2002, 0x2003, 0x2004, 0x2005] =
     [0xFF, 0x11, 0x22, 0x33, 0, 0, 0xFF]"
    by (simp add: loader_eval img64_ok_def memset_eval)
  from h32 c32 m32 h64 c64 m64 show ?thesis by blast
qed

subsection \<open>The loop over the program headers, entry by entry\<close>

lemma load_elf_reaches_loop:
  fixes cls :: "'a::len word elf_class"
  assumes "reaches_entries cls pf file_name bs s"
  shows "\<exists>fp3 s3. fdata fp3 = bs \<and> pending s3 = [] \<and> mem s3 = mem s \<and>
           load_elf cls pf file_name s =
             (case load_segments fp3 (image_phdrs cls bs) s3 of
                (Some err, fp4, s4) \<Rightarrow> (Inl err, s4)
              | (None, fp4, s4) \<Rightarrow> (Inr (image_header cls bs), emit [Freed, Closed] s4))"
proof -
  define h where "h = image_header cls bs"
  define n where "n = unat (e_phnum h)"
  from assms have mount: "mount_ok pf" and fl: "files pf file_name = Some bs"
    and malloc: "malloc_ok pf (n * sizeof_Phdr cls)" and pend: "pending s = []"
    and size: "sizeof_Ehdr cls \<le> length bs"
    and magic: "e_ident h ! 0 = ELFMAG0" "e_ident h ! 1 = ELFMAG1"
               "e_ident h ! 2 = ELFMAG2" "e_ident h ! 3 = ELFMAG3"
    and phoff: "unat (e_phoff h) < length bs"
    and table: "unat (e_phoff h) + n * sizeof_Phdr cls \<le> length bs"
    by (simp_all add: reaches_entries_def h_def n_def)
  define file0 where "file0 = \<lparr>fdata = bs, fptr = 0\<rparr>"
  define s0 where "s0 = emit [Opened] s"
  define s1 where "s1 = consume_outcome s0"
  define file1 where "file1 = file0\<lparr>fptr := sizeof_Ehdr cls\<rparr>"
  have op: "f_open pf file_name = Some file0" using fl by (simp add: f_open_def file0_def)
  have rd1: "f_read file0 (sizeof_Ehdr cls) (next_outcome s0) =
               (FR_OK, take (sizeof_Ehdr cls) bs, file1)"
    using pend size
    by (simp add: f_read_def next_outcome_def s0_def emit_def file0_def file1_def Let_def)
  have hdr: "Ehdr_of cls (take (sizeof_Ehdr cls) bs) = h" by (simp add: h_def image_header_def)
  define s2 where "s2 = emit [Allocated (n * sizeof_Phdr cls)] s1"
  define file2 where "file2 = f_lseek file1 (unat (e_phoff h))"
  define s3 where "s3 = consume_outcome s2"
  define tbl where "tbl = take (n * sizeof_Phdr cls) (drop (unat (e_phoff h)) bs)"
  define file3 where "file3 = file2\<lparr>fptr := fptr file2 + n * sizeof_Phdr cls\<rparr>"
  have f2: "fptr file2 = unat (e_phoff h)" "fdata file2 = bs"
    using phoff by (simp_all add: file2_def f_lseek_def f_size_def file1_def file0_def)
  have p2: "pending s2 = []" "pending s3 = []" "mem s3 = mem s"
    using pend by (simp_all add: s3_def s2_def s1_def s0_def emit_def consume_outcome_def)
  have ltbl: "length tbl = n * sizeof_Phdr cls" using table by (simp add: tbl_def)
  have rd2: "f_read file2 (n * sizeof_Phdr cls) (next_outcome s2) = (FR_OK, tbl, file3)"
    using p2(1) f2 ltbl
    by (simp add: f_read_def next_outcome_def Let_def tbl_def file3_def)
  have phs: "table_entries cls n tbl = image_phdrs cls bs"
    by (simp add: image_phdrs_def tbl_def n_def h_def)
  have f3: "fdata file3 = bs" using f2 by (simp add: file3_def)
  have sz1: "f_size file1 = length bs" by (simp add: f_size_def file1_def file0_def)
  have "load_elf cls pf file_name s =
             (case load_segments file3 (image_phdrs cls bs) s3 of
                (Some err, fp4, s4) \<Rightarrow> (Inl err, s4)
              | (None, fp4, s4) \<Rightarrow> (Inr h, emit [Freed, Closed] s4))"
    using mount op rd1 magic phoff malloc rd2 ltbl size
    by (simp add: load_elf_def Let_def s0_def[symmetric] s1_def[symmetric] hdr
          n_def[symmetric] s2_def[symmetric] file2_def[symmetric] s3_def[symmetric] phs sz1
          split: prod.splits option.splits)
  with f3 p2 show ?thesis unfolding h_def by blast
qed

lemma load_segments_in_bounds:
  fixes phs :: "'a::len word Elf_Phdr list"
  assumes "pending s = []"
    and "\<forall>ph \<in> set phs. unat (p_offset ph) + unat (p_filesz ph) \<le> length (fdata fp)"
  shows "\<exists>fp' s'. load_segments fp phs s = (None, fp', s') \<and> fdata fp' = fdata fp \<and>
                  pending s' = [] \<and> mem s' = fold (segment_memory (fdata fp)) phs (mem s)"
  using assms
proof (induction phs arbitrary: fp s)
  case Nil
  then show ?case by simp
next
  case (Cons ph phs)
  from Cons.prems have "unat (p_offset ph) + unat (p_filesz ph) \<le> length (fdata fp)" by simp
  from load_segment_complete[OF Cons.prems(1) this] obtain fp1 s1 where
    l: "load_segment fp ph s = (None, fp1, s1)" and d: "fdata fp1 = fdata fp"
    and m: "mem s1 = segment_memory (fdata fp) ph (mem s)" and p: "pending s1 = []"
    by blast
  from Cons.prems d have
    "\<forall>ph \<in> set phs. unat (p_offset ph) + unat (p_filesz ph) \<le> length (fdata fp1)" by simp
  from Cons.IH[OF p this] obtain fp' s' where
    "load_segments fp1 phs s1 = (None, fp', s')" "fdata fp' = fdata fp1" "pending s' = []"
    "mem s' = fold (segment_memory (fdata fp1)) phs (mem s1)"
    by blast
  with l d m show ?case by simp
qed

lemma load_segments_append:
  "load_segments fp (xs @ ys) s =
     (case load_segments fp xs s of
        (Some err, fp', s') \<Rightarrow> (Some err, fp', s')
      | (None, fp', s') \<Rightarrow> load_segments fp' ys s')"
  by (induction xs arbitrary: fp s) (auto split: prod.splits option.splits)

text \<open>The loop up to entry k, when the entries before it lie inside the file.\<close>

lemma load_segments_up_to:
  fixes phs :: "'a::len word Elf_Phdr list"
  assumes "pending s = []" and "k < length phs"
    and "\<forall>j < k. unat (p_offset (phs ! j)) + unat (p_filesz (phs ! j)) \<le> length (fdata fp)"
  shows "\<exists>fp' s'. fdata fp' = fdata fp \<and> pending s' = [] \<and>
           mem s' = fold (segment_memory (fdata fp)) (take k phs) (mem s) \<and>
           load_segments fp phs s =
             (case load_segment fp' (phs ! k) s' of
                (Some err, fp2, s2) \<Rightarrow> (Some err, fp2, s2)
              | (None, fp2, s2) \<Rightarrow> load_segments fp2 (drop (Suc k) phs) s2)"
proof -
  have "\<forall>ph \<in> set (take k phs). unat (p_offset ph) + unat (p_filesz ph) \<le> length (fdata fp)"
  proof
    fix ph assume "ph \<in> set (take k phs)"
    then obtain j where "j < length (take k phs)" "ph = take k phs ! j"
      by (auto simp: in_set_conv_nth)
    with assms(2,3) show "unat (p_offset ph) + unat (p_filesz ph) \<le> length (fdata fp)" by simp
  qed
  from load_segments_in_bounds[OF assms(1) this] obtain fp' s' where
    l: "load_segments fp (take k phs) s = (None, fp', s')" and d: "fdata fp' = fdata fp"
    and p: "pending s' = []" and m: "mem s' = fold (segment_memory (fdata fp)) (take k phs) (mem s)"
    by blast
  have "phs = take k phs @ phs ! k # drop (Suc k) phs"
    using assms(2) by (simp add: id_take_nth_drop)
  then have "load_segments fp phs s = load_segments fp (take k phs @ phs ! k # drop (Suc k) phs) s"
    by simp
  also have "\<dots> = (case load_segment fp' (phs ! k) s' of
                (Some err, fp2, s2) \<Rightarrow> (Some err, fp2, s2)
              | (None, fp2, s2) \<Rightarrow> load_segments fp2 (drop (Suc k) phs) s2)"
    unfolding load_segments_append l by simp
  finally show ?thesis using d p m by blast
qed

lemma load_elf_first_beyond_file:
  fixes cls :: "'a::len word elf_class"
  assumes "reaches_entries cls pf file_name bs s" and "first_beyond_file cls bs k"
  shows "fst (load_elf cls pf file_name s) = Inl SegmentOutOfBounds \<and>
         mem (snd (load_elf cls pf file_name s)) =
           fold (segment_memory bs) (take k (image_phdrs cls bs)) (mem s)"
proof -
  let ?P = "image_phdrs cls bs"
  from load_elf_reaches_loop[OF assms(1)] obtain fp3 s3 where
    f3: "fdata fp3 = bs" and p3: "pending s3 = []" and m3: "mem s3 = mem s"
    and le: "load_elf cls pf file_name s =
             (case load_segments fp3 ?P s3 of
                (Some err, fp4, s4) \<Rightarrow> (Inl err, s4)
              | (None, fp4, s4) \<Rightarrow> (Inr (image_header cls bs), emit [Freed, Closed] s4))"
    by blast
  from assms(2) have k: "k < length ?P"
    and before: "\<forall>j < k. unat (p_offset (?P ! j)) + unat (p_filesz (?P ! j)) \<le> length (fdata fp3)"
    and fits: "unat (p_offset (?P ! k)) + unat (p_filesz (?P ! k)) < 2 ^ LENGTH('a)"
    and beyond: "length bs < unat (p_offset (?P ! k)) + unat (p_filesz (?P ! k))"
    by (simp_all add: first_beyond_file_def f3)
  from load_segments_up_to[OF p3 k before] obtain fp' s' where
    d: "fdata fp' = bs" and m: "mem s' = fold (segment_memory bs) (take k ?P) (mem s)"
    and ls: "load_segments fp3 ?P s3 =
             (case load_segment fp' (?P ! k) s' of
                (Some err, fp2, s2) \<Rightarrow> (Some err, fp2, s2)
              | (None, fp2, s2) \<Rightarrow> load_segments fp2 (drop (Suc k) ?P) s2)"
    by (auto simp: f3 m3)
  have "f_size fp' < unat (p_offset (?P ! k)) + unat (p_filesz (?P ! k))"
    using beyond d by (simp add: f_size_def)
  from extent_beyond_file_rejected[OF fits this]
  have "load_segment fp' (?P ! k) s' = (Some SegmentOutOfBounds, fp', emit [Freed, Closed] s')" .
  with ls le m show ?thesis by (simp add: emit_def)
qed

subsection \<open>Entries that are not of type LOAD\<close>

text \<open>
  C2 (as amended). The loaders do with an entry whose type is not \<^verbatim>\<open>PT_LOAD\<close> what they
  do with any entry. In an image that loads, its \<^verbatim>\<open>p_filesz\<close> bytes are copied to
  \<^verbatim>\<open>p_vaddr\<close> and the rest up to \<^verbatim>\<open>p_memsz\<close> is zeroed: they are there after the load when
  no later entry writes to the same addresses. And its extent is checked: when it is the
  first entry whose \<open>p_offset + p_filesz\<close> goes beyond the file (the sum fitting the width
  of the fields), the load fails with \<open>SegmentOutOfBounds\<close>, memory being what the entries
  before it made it.
\<close>

theorem non_load_entry_is_checked_and_loaded:
  "(loads_from ELF32 pf file_name bs s \<and> last_writer ELF32 bs k \<and>
    p_type (image_phdrs ELF32 bs ! k) \<noteq> PT_LOAD \<longrightarrow>
      segment_placed bs (image_phdrs ELF32 bs ! k) (mem (snd (load_elf32 pf file_name s)))) \<and>
   (reaches_entries ELF32 pf file_name bs s \<and> first_beyond_file ELF32 bs k \<and>
    p_type (image_phdrs ELF32 bs ! k) \<noteq> PT_LOAD \<longrightarrow>
      fst (load_elf32 pf file_name s) = Inl SegmentOutOfBounds \<and>
      mem (snd (load_elf32 pf file_name s)) =
        fold (segment_memory bs) (take k (image_phdrs ELF32 bs)) (mem s)) \<and>
   (loads_from ELF64 pf file_name bs t \<and> last_writer ELF64 bs k \<and>
    p_type (image_phdrs ELF64 bs ! k) \<noteq> PT_LOAD \<longrightarrow>
      segment_placed bs (image_phdrs ELF64 bs ! k) (mem (snd (load_elf64 pf file_name t)))) \<and>
   (reaches_entries ELF64 pf file_name bs t \<and> first_beyond_file ELF64 bs k \<and>
    p_type (image_phdrs ELF64 bs ! k) \<noteq> PT_LOAD \<longrightarrow>
      fst (load_elf64 pf file_name t) = Inl SegmentOutOfBounds \<and>
      mem (snd (load_elf64 pf file_name t)) =
        fold (segment_memory bs) (take k (image_phdrs ELF64 bs)) (mem t))"
proof (intro conjI impI)
  assume a: "loads_from ELF32 pf file_name bs s \<and> last_writer ELF32 bs k \<and>
    p_type (image_phdrs ELF32 bs ! k) \<noteq> PT_LOAD"
  then have "segment_placed bs (image_phdrs ELF32 bs ! k) (mem (snd (load_elf ELF32 pf file_name s)))"
    using load_elf_segments_placed[of ELF32 pf file_name bs s]
    by (simp add: segments_placed_def last_writer_def)
  moreover have "mem (snd (load_elf32 pf file_name s)) = mem (snd (load_elf ELF32 pf file_name s))"
    by (simp add: load_elf32_def Let_def emit_def split: prod.splits sum.splits)
  ultimately show "segment_placed bs (image_phdrs ELF32 bs ! k) (mem (snd (load_elf32 pf file_name s)))"
    by simp
next
  assume a: "reaches_entries ELF32 pf file_name bs s \<and> first_beyond_file ELF32 bs k \<and>
    p_type (image_phdrs ELF32 bs ! k) \<noteq> PT_LOAD"
  from load_elf_first_beyond_file[of ELF32 pf file_name bs s k] a
  show "fst (load_elf32 pf file_name s) = Inl SegmentOutOfBounds"
    and "mem (snd (load_elf32 pf file_name s)) =
        fold (segment_memory bs) (take k (image_phdrs ELF32 bs)) (mem s)"
    by (auto simp: load_elf32_def Let_def split: prod.splits sum.splits)
next
  assume a: "loads_from ELF64 pf file_name bs t \<and> last_writer ELF64 bs k \<and>
    p_type (image_phdrs ELF64 bs ! k) \<noteq> PT_LOAD"
  then have "segment_placed bs (image_phdrs ELF64 bs ! k) (mem (snd (load_elf ELF64 pf file_name t)))"
    using load_elf_segments_placed[of ELF64 pf file_name bs t]
    by (simp add: segments_placed_def last_writer_def)
  moreover have "mem (snd (load_elf64 pf file_name t)) = mem (snd (load_elf ELF64 pf file_name t))"
    by (simp add: load_elf64_def Let_def split: prod.splits sum.splits)
  ultimately show "segment_placed bs (image_phdrs ELF64 bs ! k) (mem (snd (load_elf64 pf file_name t)))"
    by simp
next
  assume a: "reaches_entries ELF64 pf file_name bs t \<and> first_beyond_file ELF64 bs k \<and>
    p_type (image_phdrs ELF64 bs ! k) \<noteq> PT_LOAD"
  from load_elf_first_beyond_file[of ELF64 pf file_name bs t k] a
  show "fst (load_elf64 pf file_name t) = Inl SegmentOutOfBounds"
    and "mem (snd (load_elf64 pf file_name t)) =
        fold (segment_memory bs) (take k (image_phdrs ELF64 bs)) (mem t)"
    by (auto simp: load_elf64_def Let_def split: prod.splits sum.splits)
qed

lemmas entries_eval =
  reaches_entries_def last_writer_def first_beyond_file_def first_past_end_def destination_def

theorem non_load_entry_is_checked_and_loaded_witness:
  "(loads_from ELF32 (sd_card [(''vxWorks.elf'', img32_note)]) ''vxWorks.elf'' img32_note blank \<and>
    last_writer ELF32 img32_note 0 \<and> p_type (image_phdrs ELF32 img32_note ! 0) \<noteq> PT_LOAD \<and>
    segment_placed img32_note (image_phdrs ELF32 img32_note ! 0)
      (mem (snd (load_elf32 (sd_card [(''vxWorks.elf'', img32_note)]) ''vxWorks.elf'' blank)))) \<and>
   (reaches_entries ELF32 (sd_card [(''vxWorks.elf'', img32_note_oob)]) ''vxWorks.elf''
      img32_note_oob blank \<and>
    first_beyond_file ELF32 img32_note_oob 0 \<and>
    p_type (image_phdrs ELF32 img32_note_oob ! 0) \<noteq> PT_LOAD \<and>
    fst (load_elf32 (sd_card [(''vxWorks.elf'', img32_note_oob)]) ''vxWorks.elf'' blank) =
      Inl SegmentOutOfBounds \<and>
    mem (snd (load_elf32 (sd_card [(''vxWorks.elf'', img32_note_oob)]) ''vxWorks.elf'' blank)) =
      mem (blank :: u32 machine)) \<and>
   (loads_from ELF64 (sd_card [(''bl31.elf'', img64_note)]) ''bl31.elf'' img64_note blank \<and>
    last_writer ELF64 img64_note 0 \<and> p_type (image_phdrs ELF64 img64_note ! 0) \<noteq> PT_LOAD \<and>
    segment_placed img64_note (image_phdrs ELF64 img64_note ! 0)
      (mem (snd (load_elf64 (sd_card [(''bl31.elf'', img64_note)]) ''bl31.elf'' blank)))) \<and>
   (reaches_entries ELF64 (sd_card [(''bl31.elf'', img64_note_oob)]) ''bl31.elf''
      img64_note_oob blank \<and>
    first_beyond_file ELF64 img64_note_oob 0 \<and>
    p_type (image_phdrs ELF64 img64_note_oob ! 0) \<noteq> PT_LOAD \<and>
    fst (load_elf64 (sd_card [(''bl31.elf'', img64_note_oob)]) ''bl31.elf'' blank) =
      Inl SegmentOutOfBounds \<and>
    mem (snd (load_elf64 (sd_card [(''bl31.elf'', img64_note_oob)]) ''bl31.elf'' blank)) =
      mem (blank :: u64 machine))"
proof -
  have a1: "loads_from ELF32 (sd_card [(''vxWorks.elf'', img32_note)]) ''vxWorks.elf'' img32_note blank"
    by (simp add: image_eval loader_eval img32_note_def)
  have a2: "last_writer ELF32 img32_note 0"
    by (simp add: entries_eval image_eval loader_eval img32_note_def)
  have a3: "p_type (image_phdrs ELF32 img32_note ! 0) \<noteq> PT_LOAD"
    by (simp add: image_eval loader_eval img32_note_def PT_LOAD_def)
  have b1: "reaches_entries ELF32 (sd_card [(''vxWorks.elf'', img32_note_oob)]) ''vxWorks.elf''
      img32_note_oob blank"
    by (simp add: entries_eval image_eval loader_eval img32_note_oob_def)
  have b2: "first_beyond_file ELF32 img32_note_oob 0"
    by (simp add: entries_eval image_eval loader_eval img32_note_oob_def)
  have b3: "p_type (image_phdrs ELF32 img32_note_oob ! 0) \<noteq> PT_LOAD"
    by (simp add: image_eval loader_eval img32_note_oob_def PT_LOAD_def)
  have c1: "loads_from ELF64 (sd_card [(''bl31.elf'', img64_note)]) ''bl31.elf'' img64_note blank"
    by (simp add: image_eval loader_eval img64_note_def)
  have c2: "last_writer ELF64 img64_note 0"
    by (simp add: entries_eval image_eval loader_eval img64_note_def)
  have c3: "p_type (image_phdrs ELF64 img64_note ! 0) \<noteq> PT_LOAD"
    by (simp add: image_eval loader_eval img64_note_def PT_LOAD_def)
  have d1: "reaches_entries ELF64 (sd_card [(''bl31.elf'', img64_note_oob)]) ''bl31.elf''
      img64_note_oob blank"
    by (simp add: entries_eval image_eval loader_eval img64_note_oob_def)
  have d2: "first_beyond_file ELF64 img64_note_oob 0"
    by (simp add: entries_eval image_eval loader_eval img64_note_oob_def)
  have d3: "p_type (image_phdrs ELF64 img64_note_oob ! 0) \<noteq> PT_LOAD"
    by (simp add: image_eval loader_eval img64_note_oob_def PT_LOAD_def)
  note i1 = non_load_entry_is_checked_and_loaded
    [where pf = "sd_card [(''vxWorks.elf'', img32_note)]" and file_name = "''vxWorks.elf''"
       and bs = img32_note and s = blank and k = 0 and t = blank]
  note i2 = non_load_entry_is_checked_and_loaded
    [where pf = "sd_card [(''vxWorks.elf'', img32_note_oob)]" and file_name = "''vxWorks.elf''"
       and bs = img32_note_oob and s = blank and k = 0 and t = blank]
  note i3 = non_load_entry_is_checked_and_loaded
    [where pf = "sd_card [(''bl31.elf'', img64_note)]" and file_name = "''bl31.elf''"
       and bs = img64_note and s = blank and k = 0 and t = blank]
  note i4 = non_load_entry_is_checked_and_loaded
    [where pf = "sd_card [(''bl31.elf'', img64_note_oob)]" and file_name = "''bl31.elf''"
       and bs = img64_note_oob and s = blank and k = 0 and t = blank]
  from i1 a1 a2 a3 have r1: "segment_placed img32_note (image_phdrs ELF32 img32_note ! 0)
      (mem (snd (load_elf32 (sd_card [(''vxWorks.elf'', img32_note)]) ''vxWorks.elf'' blank)))"
    by blast
  from i2 b1 b2 b3 have r2:
    "fst (load_elf32 (sd_card [(''vxWorks.elf'', img32_note_oob)]) ''vxWorks.elf'' blank) =
      Inl SegmentOutOfBounds"
    "mem (snd (load_elf32 (sd_card [(''vxWorks.elf'', img32_note_oob)]) ''vxWorks.elf'' blank)) =
      mem (blank :: u32 machine)"
    by simp_all
  from i3 c1 c2 c3 have r3: "segment_placed img64_note (image_phdrs ELF64 img64_note ! 0)
      (mem (snd (load_elf64 (sd_card [(''bl31.elf'', img64_note)]) ''bl31.elf'' blank)))"
    by blast
  from i4 d1 d2 d3 have r4:
    "fst (load_elf64 (sd_card [(''bl31.elf'', img64_note_oob)]) ''bl31.elf'' blank) =
      Inl SegmentOutOfBounds"
    "mem (snd (load_elf64 (sd_card [(''bl31.elf'', img64_note_oob)]) ''bl31.elf'' blank)) =
      mem (blank :: u64 machine)"
    by simp_all
  from a1 a2 a3 r1 b1 b2 b3 r2 c1 c2 c3 r3 d1 d2 d3 r4 show ?thesis by blast
qed

subsection \<open>A copy that runs into the end of the file\<close>







subsection \<open>The two loads and the hand-off in \<^verbatim>\<open>main\<close>\<close>







subsection \<open>The order of the hand-off\<close>

text \<open>
  C8. In the events of \<^verbatim>\<open>main\<close> (\<^verbatim>\<open>apu_bootloader_sd.c\<close>), whatever the platform and the
  loads did: every write to one of the eight reset-vector registers happens with the cores
  held in reset (the last write to \<^verbatim>\<open>RST_FPD_APU\<close> before it is \<^verbatim>\<open>RST_FPD_APU_VALU\<close>).
  Before any write of \<^verbatim>\<open>RST_FPD_APU_CLER\<close> to \<^verbatim>\<open>RST_FPD_APU\<close> the hand-off structure has
  been filled: it has "XLNX" in \<^verbatim>\<open>MagicValue\<close>, 1 in \<^verbatim>\<open>NumEntries\<close>, and in \<^verbatim>\<open>Entry[0]\<close>
  the entry point, which is the low 32 bits of what the load of \<^verbatim>\<open>bl31.elf\<close> returned, with
  flags 0, the rest being what the stack held; next its address has been written to
  \<^verbatim>\<open>GLOBAL_GEN_STORAGE6\<close>; and after that the four low reset-vector registers have been
  written with \<^verbatim>\<open>RVBARADDR_LOW_VALU\<close> and the four high ones with the entry point. The
  release is the last event.
\<close>

theorem reset_vectors_and_descriptor_before_release:
  "(\<forall>pre r v post.
      events_since s (main_apu pf fr s) = pre @ RegWrite r v # post \<and> r \<in> set RVBAR_registers
        \<longrightarrow> cores_held False pre) \<and>
   (\<forall>pre post.
      events_since s (main_apu pf fr s) = pre @ RegWrite RST_FPD_APU RST_FPD_APU_CLER # post
        \<longrightarrow> (\<exists>before after.
               pre = before @
                 LocalStruct (frame_addr fr)
                   ((frame_content fr)
                      \<lparr>MagicValue :=
                         (MagicValue (frame_content fr))[0 := 0x58, 1 := 0x4C, 2 := 0x4E, 3 := 0x58],
                       NumEntries := 1,
                       Entry := (Entry (frame_content fr))
                         [0 := \<lparr>EntryPoint = ucast (ucast (load_elf64_return
                                   (fst (load_elf64 pf ''bl31.elf'' (delay_ms 3000 s)))) :: u32),
                                 PartitionFlags = 0\<rparr>]\<rparr>) #
                 RegWrite GLOBAL_GEN_STORAGE6 (ucast (frame_addr fr)) # after \<and>
               (\<forall>r \<in> set [RVBARADDR0L, RVBARADDR1L, RVBARADDR2L, RVBARADDR3L].
                  RegWrite r RVBARADDR_LOW_VALU \<in> set after) \<and>
               (\<forall>r \<in> set [RVBARADDR0H, RVBARADDR1H, RVBARADDR2H, RVBARADDR3H].
                  RegWrite r (ucast (load_elf64_return
                     (fst (load_elf64 pf ''bl31.elf'' (delay_ms 3000 s))))) \<in> set after))) \<and>
   (\<exists>pre. events_since s (main_apu pf fr s) = pre @ [RegWrite RST_FPD_APU RST_FPD_APU_CLER])"
proof -
  define ep :: u32 where
    "ep = ucast (load_elf64_return (fst (load_elf64 pf ''bl31.elf'' (delay_ms 3000 s))))"
  define H :: "u64 event list" where "H =
       [LocalStruct (frame_addr fr) (ATFHandoffParams_filled (frame_content fr) 0 ep 0),
        RegWrite GLOBAL_GEN_STORAGE6 (ucast (frame_addr fr)),
        RegWrite RST_FPD_APU RST_FPD_APU_VALU,
        RegRead RVBARADDR0H, RegRead RVBARADDR1H, RegRead RVBARADDR2H, RegRead RVBARADDR3H,
        RegWrite RVBARADDR0L RVBARADDR_LOW_VALU,
        RegWrite RVBARADDR1L RVBARADDR_LOW_VALU,
        RegWrite RVBARADDR2L RVBARADDR_LOW_VALU,
        RegWrite RVBARADDR3L RVBARADDR_LOW_VALU,
        RegWrite RVBARADDR0H ep, RegWrite RVBARADDR1H ep,
        RegWrite RVBARADDR2H ep, RegWrite RVBARADDR3H ep,
        RegRead RVBARADDR0H, RegRead RVBARADDR1H, RegRead RVBARADDR2H, RegRead RVBARADDR3H,
        RegWrite RST_FPD_APU RST_FPD_APU_CLER]"
  from main_apu_events[of pf fr s] obtain es where
    es: "\<forall>e \<in> set es. loader_event e" and
    tr: "events_since s (main_apu pf fr s) = (Delay 3000 # es) @ H"
    unfolding ep_def H_def events_since_def by auto
  have nw: "\<And>r v. RegWrite r v \<notin> set (Delay 3000 # es)"
    using loader_event_not_RegWrite[OF es] by simp
  have held: "\<And>pre'. cores_held False ((Delay 3000 # es) @ pre') = cores_held False pre'"
    using cores_held_no_write[of "Delay 3000 # es" False] nw
    by (simp only: cores_held_append) simp
  have filled: "ATFHandoffParams_filled (frame_content fr) 0 ep 0 =
      (frame_content fr)
        \<lparr>MagicValue :=
           (MagicValue (frame_content fr))[0 := 0x58, 1 := 0x4C, 2 := 0x4E, 3 := 0x58],
         NumEntries := 1,
         Entry := (Entry (frame_content fr))[0 := \<lparr>EntryPoint = ucast ep, PartitionFlags = 0\<rparr>]\<rparr>"
    by (simp add: ATFHandoffParams_filled_def MAX_ENTRIES_def Let_def)
  have A: "cores_held False pre"
    if "events_since s (main_apu pf fr s) = pre @ RegWrite r v # post"
      and "r \<in> set RVBAR_registers" for pre r v post
  proof -
    from split_after_prefix[OF nw that(1)[unfolded tr]] obtain pre' where
      p: "pre = (Delay 3000 # es) @ pre'" and h: "H = pre' @ RegWrite r v # post" by blast
    from h that(2) have "cores_held False pre'"
      unfolding H_def
      by (auto simp: Cons_eq_append_conv register_defs)
    with p held show ?thesis by simp
  qed
  have B: "\<exists>before after.
               pre = before @
                 LocalStruct (frame_addr fr)
                   ((frame_content fr)
                      \<lparr>MagicValue :=
                         (MagicValue (frame_content fr))[0 := 0x58, 1 := 0x4C, 2 := 0x4E, 3 := 0x58],
                       NumEntries := 1,
                       Entry := (Entry (frame_content fr))
                         [0 := \<lparr>EntryPoint = ucast ep, PartitionFlags = 0\<rparr>]\<rparr>) #
                 RegWrite GLOBAL_GEN_STORAGE6 (ucast (frame_addr fr)) # after \<and>
               (\<forall>r \<in> set [RVBARADDR0L, RVBARADDR1L, RVBARADDR2L, RVBARADDR3L].
                  RegWrite r RVBARADDR_LOW_VALU \<in> set after) \<and>
               (\<forall>r \<in> set [RVBARADDR0H, RVBARADDR1H, RVBARADDR2H, RVBARADDR3H].
                  RegWrite r ep \<in> set after)"
    if "events_since s (main_apu pf fr s) = pre @ RegWrite RST_FPD_APU RST_FPD_APU_CLER # post"
    for pre post
  proof -
    from split_after_prefix[OF nw that(1)[unfolded tr]] obtain pre' where
      p: "pre = (Delay 3000 # es) @ pre'"
      and h: "H = pre' @ RegWrite RST_FPD_APU RST_FPD_APU_CLER # post" by blast
    from h have "pre' = butlast H"
      unfolding H_def
      by (auto simp: Cons_eq_append_conv register_defs)
    then have "pre = (Delay 3000 # es) @
                 LocalStruct (frame_addr fr)
                   ((frame_content fr)
                      \<lparr>MagicValue :=
                         (MagicValue (frame_content fr))[0 := 0x58, 1 := 0x4C, 2 := 0x4E, 3 := 0x58],
                       NumEntries := 1,
                       Entry := (Entry (frame_content fr))
                         [0 := \<lparr>EntryPoint = ucast ep, PartitionFlags = 0\<rparr>]\<rparr>) #
                 RegWrite GLOBAL_GEN_STORAGE6 (ucast (frame_addr fr)) # drop 2 (butlast H)"
      using p unfolding H_def filled by simp
    moreover have "(\<forall>r \<in> set [RVBARADDR0L, RVBARADDR1L, RVBARADDR2L, RVBARADDR3L].
                  RegWrite r RVBARADDR_LOW_VALU \<in> set (drop 2 (butlast H))) \<and>
               (\<forall>r \<in> set [RVBARADDR0H, RVBARADDR1H, RVBARADDR2H, RVBARADDR3H].
                  RegWrite r ep \<in> set (drop 2 (butlast H)))"
      unfolding H_def by simp
    ultimately show ?thesis by blast
  qed
  have C: "\<exists>pre. events_since s (main_apu pf fr s) = pre @ [RegWrite RST_FPD_APU RST_FPD_APU_CLER]"
    unfolding tr H_def by (intro exI[of _ "(Delay 3000 # es) @ butlast H"]) (simp add: H_def)
  from A B C show ?thesis unfolding ep_def by blast
qed


theorem reset_vectors_and_descriptor_before_release_witness:
  "events_since blank (main_apu (sd_card [(''bl31.elf'', img64_ok), (''u-boot.elf'', img64_ok)]) stack_frame blank) =
     take 22 (events_since blank
        (main_apu (sd_card [(''bl31.elf'', img64_ok), (''u-boot.elf'', img64_ok)]) stack_frame blank))
     @ RegWrite RVBARADDR0L 0
     # drop 23 (events_since blank
        (main_apu (sd_card [(''bl31.elf'', img64_ok), (''u-boot.elf'', img64_ok)]) stack_frame blank)) \<and>
   RVBARADDR0L \<in> set RVBAR_registers \<and>
   cores_held False (take 22 (events_since blank
        (main_apu (sd_card [(''bl31.elf'', img64_ok), (''u-boot.elf'', img64_ok)]) stack_frame blank))) \<and>
   events_since blank (main_apu (sd_card [(''bl31.elf'', img64_ok), (''u-boot.elf'', img64_ok)]) stack_frame blank) =
     take 34 (events_since blank
        (main_apu (sd_card [(''bl31.elf'', img64_ok), (''u-boot.elf'', img64_ok)]) stack_frame blank))
     @ RegWrite RST_FPD_APU RST_FPD_APU_CLER # [] \<and>
   (\<exists>before after.
      take 34 (events_since blank
        (main_apu (sd_card [(''bl31.elf'', img64_ok), (''u-boot.elf'', img64_ok)]) stack_frame blank)) =
        before @
        LocalStruct 0xFFFE0000
          \<lparr>MagicValue = [0x58, 0x4C, 0x4E, 0x58], NumEntries = 1,
           Entry = (replicate 10 \<lparr>EntryPoint = 9, PartitionFlags = 9\<rparr>)
                     [0 := \<lparr>EntryPoint = 0xFFFEA000, PartitionFlags = 0\<rparr>]\<rparr> #
        RegWrite GLOBAL_GEN_STORAGE6 0xFFFE0000 # after \<and>
      RegWrite RVBARADDR0L 0 \<in> set after \<and> RegWrite RVBARADDR1L 0 \<in> set after \<and>
      RegWrite RVBARADDR2L 0 \<in> set after \<and> RegWrite RVBARADDR3L 0 \<in> set after \<and>
      RegWrite RVBARADDR0H 0xFFFEA000 \<in> set after \<and>
      RegWrite RVBARADDR1H 0xFFFEA000 \<in> set after \<and>
      RegWrite RVBARADDR2H 0xFFFEA000 \<in> set after \<and>
      RegWrite RVBARADDR3H 0xFFFEA000 \<in> set after)"
proof -
  let ?tr = "events_since blank (main_apu (sd_card [(''bl31.elf'', img64_ok), (''u-boot.elf'', img64_ok)]) stack_frame blank)"
  have s1: "?tr = take 22 ?tr @ RegWrite RVBARADDR0L 0 # drop 23 ?tr"
    by (simp add: main_apu_two_images)
  have m: "RVBARADDR0L \<in> set RVBAR_registers" by (simp add: RVBAR_registers_def)
  have s2: "?tr = take 34 ?tr @ RegWrite RST_FPD_APU RST_FPD_APU_CLER # []"
    by (simp add: main_apu_two_images)
  have l1: "load_elf64 (sd_card [(''bl31.elf'', img64_ok), (''u-boot.elf'', img64_ok)]) ''bl31.elf'' (delay_ms 3000 blank) =
           (Inr 0xFFFEA000,
            (delay_ms 3000 blank)
             \<lparr>mem := memset (memcpy (mem (delay_ms 3000 blank)) 0x2000 [0x11, 0x22, 0x33]) 0x2003 0 2,
              trace := trace (delay_ms 3000 blank) @
                         [Opened, Allocated 56, Memcpy 0x2000 [0x11, 0x22, 0x33],
                          Flush 0x2000 3, Memset 0x2003 2, Freed, Closed],
              pending := []\<rparr>)"
    by (rule load_img64_ok) (simp_all add: delay_ms_def emit_def blank_def sd_card_def)
  have ep: "(ucast (load_elf64_return
               (fst (load_elf64 (sd_card [(''bl31.elf'', img64_ok), (''u-boot.elf'', img64_ok)]) ''bl31.elf'' (delay_ms 3000 blank)))) :: u32) = 0xFFFEA000"
    by (simp add: l1 load_elf64_return_def)
  have d: "(frame_content stack_frame)
             \<lparr>MagicValue :=
                (MagicValue (frame_content stack_frame))[0 := 0x58, 1 := 0x4C, 2 := 0x4E, 3 := 0x58],
              NumEntries := 1,
              Entry := (Entry (frame_content stack_frame))
                [0 := \<lparr>EntryPoint = ucast (0xFFFEA000 :: u32), PartitionFlags = 0\<rparr>]\<rparr> =
           \<lparr>MagicValue = [0x58, 0x4C, 0x4E, 0x58], NumEntries = 1,
            Entry = (replicate 10 \<lparr>EntryPoint = 9, PartitionFlags = 9\<rparr>)
                      [0 := \<lparr>EntryPoint = 0xFFFEA000, PartitionFlags = 0\<rparr>]\<rparr>"
    by (simp add: stack_frame_def)
  have a: "frame_addr stack_frame = 0xFFFE0000" "(ucast (0xFFFE0000 :: u64) :: u32) = 0xFFFE0000"
    by (simp_all add: stack_frame_def)
  note inst = reset_vectors_and_descriptor_before_release
    [of blank "(sd_card [(''bl31.elf'', img64_ok), (''u-boot.elf'', img64_ok)])" stack_frame, unfolded ep d a RVBARADDR_LOW_VALU_def]
  from inst s1 m have c1: "cores_held False (take 22 ?tr)" by blast
  from inst s2 have "\<exists>before after.
      take 34 ?tr =
        before @
        LocalStruct 0xFFFE0000
          \<lparr>MagicValue = [0x58, 0x4C, 0x4E, 0x58], NumEntries = 1,
           Entry = (replicate 10 \<lparr>EntryPoint = 9, PartitionFlags = 9\<rparr>)
                     [0 := \<lparr>EntryPoint = 0xFFFEA000, PartitionFlags = 0\<rparr>]\<rparr> #
        RegWrite GLOBAL_GEN_STORAGE6 0xFFFE0000 # after \<and>
      (\<forall>r \<in> set [RVBARADDR0L, RVBARADDR1L, RVBARADDR2L, RVBARADDR3L].
         RegWrite r 0 \<in> set after) \<and>
      (\<forall>r \<in> set [RVBARADDR0H, RVBARADDR1H, RVBARADDR2H, RVBARADDR3H].
         RegWrite r 0xFFFEA000 \<in> set after)"
    by blast
  then have c2: "\<exists>before after.
      take 34 ?tr =
        before @
        LocalStruct 0xFFFE0000
          \<lparr>MagicValue = [0x58, 0x4C, 0x4E, 0x58], NumEntries = 1,
           Entry = (replicate 10 \<lparr>EntryPoint = 9, PartitionFlags = 9\<rparr>)
                     [0 := \<lparr>EntryPoint = 0xFFFEA000, PartitionFlags = 0\<rparr>]\<rparr> #
        RegWrite GLOBAL_GEN_STORAGE6 0xFFFE0000 # after \<and>
      RegWrite RVBARADDR0L 0 \<in> set after \<and> RegWrite RVBARADDR1L 0 \<in> set after \<and>
      RegWrite RVBARADDR2L 0 \<in> set after \<and> RegWrite RVBARADDR3L 0 \<in> set after \<and>
      RegWrite RVBARADDR0H 0xFFFEA000 \<in> set after \<and>
      RegWrite RVBARADDR1H 0xFFFEA000 \<in> set after \<and>
      RegWrite RVBARADDR2H 0xFFFEA000 \<in> set after \<and>
      RegWrite RVBARADDR3H 0xFFFEA000 \<in> set after"
    by simp
  from s1 m c1 s2 c2 show ?thesis by blast
qed

end
